theory Spec2Isabelle
  imports Complex_Main "HOL-Library.Sublist"
begin

section \<open>Values shared by the whole development\<close>

text \<open>
  The module \<^verbatim>\<open>tf/models.py\<close> builds weight matrices with numpy and combines tensors with
  TensorFlow operations. Numbers are modelled as reals: the double-precision arithmetic of
  numpy is taken as exact, and the cast to single precision that \<^verbatim>\<open>tf.constant\<close> performs is
  the rounding \<open>float32\<close> below. A tensor is modelled by its static shape together with its
  contents, and building an operation and evaluating it are merged into one step.
\<close>

type_synonym shape = "nat option list"

text \<open>Exceptions of the module and of the two libraries it calls.\<close>

datatype error =
    AssertionError
  | ValueError string "shape list"
  | NotImplementedError "string option"
  | ZeroDivisionError

text \<open>The text an exception shows: Python's \<^verbatim>\<open>str(e)\<close>, without the rendered shapes.\<close>

fun error_text :: "error \<Rightarrow> string" where
  "error_text AssertionError = []"
| "error_text (ValueError msg shapes) = msg"
| "error_text (NotImplementedError None) = []"
| "error_text (NotImplementedError (Some msg)) = msg"
| "error_text ZeroDivisionError = ''float division by zero''"

section \<open>numpy arrays of rank two\<close>

record ndarray =
  nd_shape :: "nat \<times> nat"
  nd_rows :: "real list list"

text \<open>
  \<^verbatim>\<open>np.empty\<close> leaves the entries unspecified; they are zero here. The loop of
  \<^verbatim>\<open>fixed_initializer\<close> overwrites every row before the array is returned.
\<close>

definition np_empty :: "nat \<times> nat \<Rightarrow> ndarray" where
  "np_empty s = \<lparr>nd_shape = s, nd_rows = replicate (fst s) (replicate (snd s) 0)\<rparr>"

definition np_identity :: "nat \<Rightarrow> ndarray" where
  "np_identity n =
     \<lparr>nd_shape = (n, n),
      nd_rows = map (\<lambda>i. map (\<lambda>j. if i = j then 1 else 0) [0..<n]) [0..<n]\<rparr>"

text \<open>
  The generator is the stream of unit samples it will hand out, each in the half-open
  interval from 0 to 1. \<^verbatim>\<open>np.random.uniform(low, high, size)\<close> scales the next
  \<open>r * c\<close> of them to \<open>low + (high - low) * u\<close> and leaves the rest of the stream.
\<close>

type_synonym rng = "nat \<Rightarrow> real"

definition unit_samples :: "rng \<Rightarrow> bool" where
  "unit_samples g \<longleftrightarrow> (\<forall>k. 0 \<le> g k \<and> g k < 1)"

definition uniform :: "real \<Rightarrow> real \<Rightarrow> nat \<times> nat \<Rightarrow> rng \<Rightarrow> ndarray \<times> rng" where
  "uniform low high sz g =
     (case sz of (r, c) \<Rightarrow>
        (\<lparr>nd_shape = (r, c),
          nd_rows = map (\<lambda>i. map (\<lambda>j. low + (high - low) * g (i * c + j)) [0..<c]) [0..<r]\<rparr>,
         \<lambda>k. g (r * c + k)))"

text \<open>
  Broadcasting of an assigned value to the shape of the slice it is assigned to: an axis
  of the value must have the length of the slice's axis or length one, and an axis of
  length one is repeated.
\<close>

definition stretch :: "nat \<Rightarrow> nat \<Rightarrow> 'a list \<Rightarrow> 'a list" where
  "stretch have want xs = (if have = want then xs else replicate want (hd xs))"

definition broadcast_to :: "ndarray \<Rightarrow> nat \<times> nat \<Rightarrow> error + real list list" where
  "broadcast_to v s =
     (case (nd_shape v, s) of ((vr, vc), (r, c)) \<Rightarrow>
        if (vr = r \<or> vr = 1) \<and> (vc = c \<or> vc = 1)
        then Inr (stretch vr r (map (stretch vc c) (nd_rows v)))
        else Inl (ValueError ''could not broadcast input array''
                    [[Some vr, Some vc], [Some r, Some c]]))"

text \<open>\<^verbatim>\<open>m[start:stop, :] = v\<close>, the slice bounds clipped to the array as Python does.\<close>

definition assign_rows :: "ndarray \<Rightarrow> nat \<Rightarrow> nat \<Rightarrow> ndarray \<Rightarrow> error + ndarray" where
  "assign_rows m start stop v =
     (case nd_shape m of (R, C) \<Rightarrow>
        let lo = min start R; hi = max lo (min stop R) in
        (case broadcast_to v (hi - lo, C) of
           Inl e \<Rightarrow> Inl e
         | Inr block \<Rightarrow>
             Inr (m\<lparr>nd_rows := take lo (nd_rows m) @ block @ drop hi (nd_rows m)\<rparr>)))"

section \<open>Tensors\<close>

datatype tval =
    Vec "real list"
  | Mat "real list list"
  | Cube "real list list list"
  | Other

record tensor =
  get_shape :: shape
  tval :: tval

text \<open>
  Rounding of a real to single precision, to the nearest representable number and to the
  even significand on a tie: 24 bits of significand, the exponent of the last place not
  below \<open>-149\<close> (so that small numbers are rounded as subnormals). The numbers rounded
  here are at most \<open>sqrt 6\<close> in magnitude, far from overflow.
\<close>

definition round_half_even :: "real \<Rightarrow> int" where
  "round_half_even x =
     (let f = \<lfloor>x\<rfloor>; d = x - of_int f
      in if d < 1 / 2 then f else if 1 / 2 < d then f + 1 else if even f then f else f + 1)"

definition float32_magnitude :: "real \<Rightarrow> real" where
  "float32_magnitude x =
     (if x = 0 then 0
      else (let e = max (- 126) \<lfloor>log 2 x\<rfloor>; ulp = 2 powr (of_int e - 23)
            in of_int (round_half_even (x / ulp)) * ulp))"

definition float32 :: "real \<Rightarrow> real" where
  "float32 x = (if x < 0 then - float32_magnitude (- x) else float32_magnitude x)"

text \<open>\<^verbatim>\<open>tf.constant(matrix, dtype=tf.float32)\<close>: the shape of the array, every entry cast.\<close>

definition tf_constant :: "ndarray \<Rightarrow> tensor" where
  "tf_constant a =
     \<lparr>get_shape = [Some (fst (nd_shape a)), Some (snd (nd_shape a))],
      tval = Mat (map (map float32) (nd_rows a))\<rparr>"

section \<open>The composite-weight initializer\<close>

text \<open>
  The loop of \<^verbatim>\<open>fixed_initializer\<close> over \<^verbatim>\<open>enumerate(n_in_list)\<close>, with the row marker, the
  generator and the array as its state. Dimensions are naturals; \<^verbatim>\<open>identity\<close> is an integer
  because its default is \<open>-1\<close>. The division \<^verbatim>\<open>6.0 / (n_in + n_out)\<close> raises when the
  divisor is zero.
\<close>

fun fixed_initializer_loop ::
  "int \<Rightarrow> nat \<Rightarrow> (nat \<times> nat) list \<Rightarrow> nat \<Rightarrow> rng \<Rightarrow> ndarray \<Rightarrow> (error + ndarray) \<times> rng" where
  "fixed_initializer_loop identity n_out [] row_marker g matrix = (Inr matrix, g)"
| "fixed_initializer_loop identity n_out ((i, n_in) # rest) row_marker g matrix =
     (if int i = identity then
        (case assign_rows matrix row_marker (row_marker + n_in) (np_identity n_in) of
           Inl e \<Rightarrow> (Inl e, g)
         | Inr matrix' \<Rightarrow>
             fixed_initializer_loop identity n_out rest (row_marker + n_in) g matrix')
      else if n_in + n_out = 0 then (Inl ZeroDivisionError, g)
      else
        (let scale = sqrt (6 / real (n_in + n_out));
             (values, g') = uniform (- scale) scale (n_in, n_out) g
         in (case assign_rows matrix row_marker (row_marker + n_in) values of
               Inl e \<Rightarrow> (Inl e, g')
             | Inr matrix' \<Rightarrow>
                 fixed_initializer_loop identity n_out rest (row_marker + n_in) g' matrix')))"

definition fixed_initializer ::
  "nat list \<Rightarrow> nat \<Rightarrow> int \<Rightarrow> rng \<Rightarrow> (error + tensor) \<times> rng" where
  "fixed_initializer n_in_list n_out identity g =
     (case fixed_initializer_loop identity n_out (enumerate 0 n_in_list) 0 g
             (np_empty (sum_list n_in_list, n_out)) of
        (Inl e, g') \<Rightarrow> (Inl e, g')
      | (Inr matrix, g') \<Rightarrow> (Inr (tf_constant matrix), g'))"


section \<open>TensorFlow operations used by the module\<close>

text \<open>
  Each operation checks its operands as TensorFlow does and fails with a \<open>ValueError\<close>
  otherwise. \<open>rows_of\<close> reads the contents of a tensor of rank two.
\<close>

definition rows_of :: "tensor \<Rightarrow> real list list option" where
  "rows_of t =
     (case tval t of
        Mat A \<Rightarrow> if length (get_shape t) = 2 then Some A else None
      | _ \<Rightarrow> None)"

definition ncols :: "tensor \<Rightarrow> real list list \<Rightarrow> nat" where
  "ncols t A =
     (case get_shape t ! 1 of
        Some c \<Rightarrow> c
      | None \<Rightarrow> (case A of [] \<Rightarrow> 0 | r # _ \<Rightarrow> length r))"

definition dot :: "real list \<Rightarrow> real list \<Rightarrow> real" where
  "dot xs ys = sum_list (map2 (*) xs ys)"

definition matmul :: "tensor \<Rightarrow> tensor \<Rightarrow> error + tensor" where
  "matmul a b =
     (case (rows_of a, rows_of b) of
        (Some A, Some B) \<Rightarrow>
          if list_all (\<lambda>row. length row = length B) A
          then Inr \<lparr>get_shape = [get_shape a ! 0, get_shape b ! 1],
                    tval = Mat (map (\<lambda>row. map (\<lambda>j. dot row (map (\<lambda>br. br ! j) B))
                                              [0..<ncols b B]) A)\<rparr>
          else Inl (ValueError ''Dimensions must be equal'' [get_shape a, get_shape b])
      | _ \<Rightarrow> Inl (ValueError ''Shape must be rank 2'' [get_shape a, get_shape b]))"

fun merge_dim :: "nat option \<Rightarrow> nat option \<Rightarrow> nat option" where
  "merge_dim None d = d"
| "merge_dim (Some n) d = Some n"

fun concat_rows :: "real list list list \<Rightarrow> real list list" where
  "concat_rows [] = []"
| "concat_rows [A] = A"
| "concat_rows (A # As) = map2 (@) A (concat_rows As)"

text \<open>\<^verbatim>\<open>tf.concat(1, args)\<close>: the arguments side by side, all with the same number of rows.\<close>

definition concat1 :: "tensor list \<Rightarrow> error + tensor" where
  "concat1 ts =
     (if ts \<noteq> [] \<and> list_all (\<lambda>t. rows_of t \<noteq> None) ts
         \<and> list_all (\<lambda>t. length (the (rows_of t)) = length (the (rows_of (hd ts)))) ts
      then Inr \<lparr>get_shape =
                  [foldr merge_dim (map (\<lambda>t. get_shape t ! 0) ts) None,
                   if list_all (\<lambda>t. get_shape t ! 1 \<noteq> None) ts
                   then Some (sum_list (map (\<lambda>t. the (get_shape t ! 1)) ts)) else None],
                tval = Mat (concat_rows (map (\<lambda>t. the (rows_of t)) ts))\<rparr>
      else Inl (ValueError ''Shapes must be equal rank and match outside the concat dimension''
                  (map get_shape ts)))"

text \<open>
  \<^verbatim>\<open>res + bias_term\<close> for a matrix and a vector, with the broadcasting of the last axis:
  equal lengths add entry by entry, a length of one on either side is repeated.
\<close>

definition add_row :: "real list \<Rightarrow> real list \<Rightarrow> real list option" where
  "add_row r b =
     (if length r = length b then Some (map2 (+) r b)
      else if length b = 1 then Some (map (\<lambda>x. x + hd b) r)
      else if length r = 1 then Some (map (\<lambda>y. hd r + y) b)
      else None)"

definition tf_add :: "tensor \<Rightarrow> tensor \<Rightarrow> error + tensor" where
  "tf_add a b =
     (case (rows_of a, tval b) of
        (Some A, Vec v) \<Rightarrow>
          if list_all (\<lambda>r. add_row r v \<noteq> None) A
          then Inr \<lparr>get_shape =
                      [get_shape a ! 0,
                       if get_shape a ! 1 = Some 1 then hd (get_shape b) else get_shape a ! 1],
                    tval = Mat (map (\<lambda>r. the (add_row r v)) A)\<rparr>
          else Inl (ValueError ''Incompatible shapes for broadcasting'' [get_shape a, get_shape b])
      | _ \<Rightarrow> Inl (ValueError ''Incompatible shapes for broadcasting'' [get_shape a, get_shape b]))"

fun map_tval :: "(real \<Rightarrow> real) \<Rightarrow> tval \<Rightarrow> tval" where
  "map_tval f (Vec v) = Vec (map f v)"
| "map_tval f (Mat A) = Mat (map (map f) A)"
| "map_tval f (Cube c) = Cube (map (map (map f)) c)"
| "map_tval f Other = Other"

definition tf_tanh :: "tensor \<Rightarrow> tensor" where
  "tf_tanh t = t\<lparr>tval := map_tval tanh (tval t)\<rparr>"

definition relu :: "tensor \<Rightarrow> tensor" where
  "relu t = t\<lparr>tval := map_tval (\<lambda>x. max x 0) (tval t)\<rparr>"

definition constant_initializer :: "real \<Rightarrow> nat \<Rightarrow> tensor" where
  "constant_initializer v n = \<lparr>get_shape = [Some n], tval = Vec (replicate n v)\<rparr>"

section \<open>Variable scopes and the variable store\<close>

text \<open>
  What \<^verbatim>\<open>linear\<close> and the cells read and change: the random generator of numpy, the name
  and the reuse flag of the current variable scope, and the variables created so far, by
  their full names.
\<close>

record env =
  generator :: rng
  scope_name :: string
  reuse :: bool
  vars :: "string \<rightharpoonup> tensor"

definition scoped :: "string \<Rightarrow> string \<Rightarrow> string" where
  "scoped outer nm = (if outer = [] then nm else outer @ ''/'' @ nm)"

text \<open>
  \<^verbatim>\<open>with vs.variable_scope(nm): body\<close>. The body runs in the sub-scope, which inherits the
  reuse flag; the scope that was current is current again afterwards, also when the body
  raises.
\<close>

definition variable_scope ::
  "string \<Rightarrow> (env \<Rightarrow> 'a \<times> env) \<Rightarrow> env \<Rightarrow> 'a \<times> env" where
  "variable_scope nm body st =
     (case body (st\<lparr>scope_name := scoped (scope_name st) nm\<rparr>) of
        (r, st') \<Rightarrow> (r, st'\<lparr>scope_name := scope_name st, reuse := reuse st\<rparr>))"

fun compatible_dim :: "nat option \<Rightarrow> nat option \<Rightarrow> bool" where
  "compatible_dim (Some a) (Some b) = (a = b)"
| "compatible_dim _ _ = True"

definition compatible_shape :: "shape \<Rightarrow> shape \<Rightarrow> bool" where
  "compatible_shape s t \<longleftrightarrow> length s = length t \<and> list_all2 compatible_dim s t"

text \<open>
  \<^verbatim>\<open>vs.get_variable(nm, shape, initializer)\<close>. Without reuse the variable is created with
  its initial value and must not exist yet; with reuse it must exist, and its shape must
  fit the requested one when one is given.
\<close>

definition get_variable ::
  "string \<Rightarrow> shape option \<Rightarrow> tensor \<Rightarrow> env \<Rightarrow> (error + tensor) \<times> env" where
  "get_variable nm shp init st =
     (let full = scoped (scope_name st) nm in
      case vars st full of
        Some v \<Rightarrow>
          if \<not> reuse st
          then (Inl (ValueError ''Over-sharing: Variable already exists'' []), st)
          else (case shp of
                  None \<Rightarrow> (Inr v, st)
                | Some s \<Rightarrow>
                    if compatible_shape s (get_shape v) then (Inr v, st)
                    else (Inl (ValueError ''Trying to share variable'' [s, get_shape v]), st))
      | None \<Rightarrow>
          if reuse st
          then (Inl (ValueError ''Under-sharing: Variable does not exist'' []), st)
          else (Inr init, st\<lparr>vars := (vars st)(full \<mapsto> init)\<rparr>))"

section \<open>The fused linear map\<close>

text \<open>
  \<^verbatim>\<open>args\<close> is one tensor or a list of tensors. \<^verbatim>\<open>assert args\<close> fails on the empty list;
  a tensor is true.
\<close>

datatype arguments = Tensor tensor | TensorList "tensor list"

text \<open>
  The loop over \<^verbatim>\<open>shapes\<close>. Both errors carry the list of all shapes, which the message
  formats with \<^verbatim>\<open>str(shapes)\<close>.
\<close>

fun shape_loop ::
  "shape list \<Rightarrow> shape list \<Rightarrow> nat \<Rightarrow> nat list \<Rightarrow> error + nat \<times> nat list" where
  "shape_loop shapes [] total_arg_size n_in_list = Inr (total_arg_size, n_in_list)"
| "shape_loop shapes (s # rest) total_arg_size n_in_list =
     (if length s \<noteq> 2
      then Inl (ValueError ''Linear is expecting 2D arguments: %s'' shapes)
      else (case s ! 1 of
              None \<Rightarrow> Inl (ValueError ''Linear expects shape[1] of arguments: %s'' shapes)
            | Some d \<Rightarrow>
                if d = 0
                then Inl (ValueError ''Linear expects shape[1] of arguments: %s'' shapes)
                else shape_loop shapes rest (total_arg_size + d) (n_in_list @ [d])))"

definition scope_or :: "string option \<Rightarrow> string \<Rightarrow> string" where
  "scope_or scope dflt = (case scope of None \<Rightarrow> dflt | Some s \<Rightarrow> if s = [] then dflt else s)"

text \<open>The part of \<^verbatim>\<open>linear\<close> under \<^verbatim>\<open>with vs.variable_scope(scope or "Linear")\<close>.\<close>

definition linear_computation ::
  "tensor list \<Rightarrow> nat list \<Rightarrow> nat \<Rightarrow> bool \<Rightarrow> real \<Rightarrow> int \<Rightarrow> env
     \<Rightarrow> (error + tensor) \<times> env" where
  "linear_computation args n_in_list output_size bias bias_start identity st =
     (case fixed_initializer n_in_list output_size identity (generator st) of
        (Inl e, g') \<Rightarrow> (Inl e, st\<lparr>generator := g'\<rparr>)
      | (Inr init, g') \<Rightarrow>
          (case get_variable ''Matrix'' None init (st\<lparr>generator := g'\<rparr>) of
             (Inl e, st1) \<Rightarrow> (Inl e, st1)
           | (Inr matrix, st1) \<Rightarrow>
               (case (if length args = 1 then matmul (args ! 0) matrix
                      else (case concat1 args of
                              Inl e \<Rightarrow> Inl e
                            | Inr joined \<Rightarrow> matmul joined matrix)) of
                  Inl e \<Rightarrow> (Inl e, st1)
                | Inr res \<Rightarrow>
                    if \<not> bias then (Inr res, st1)
                    else
                      (case get_variable ''Bias'' (Some [Some output_size])
                              (constant_initializer bias_start output_size) st1 of
                         (Inl e, st2) \<Rightarrow> (Inl e, st2)
                       | (Inr bias_term, st2) \<Rightarrow>
                           (case tf_add res bias_term of
                              Inl e \<Rightarrow> (Inl e, st2)
                            | Inr r \<Rightarrow> (Inr r, st2))))))"

text \<open>\<^verbatim>\<open>if not isinstance(args, (list, tuple)): args = [args]\<close>\<close>

fun as_list :: "arguments \<Rightarrow> tensor list" where
  "as_list (Tensor t) = [t]"
| "as_list (TensorList ts) = ts"

definition linear_map ::
  "arguments \<Rightarrow> nat \<Rightarrow> bool \<Rightarrow> real \<Rightarrow> string option \<Rightarrow> int \<Rightarrow> env
     \<Rightarrow> (error + tensor) \<times> env" where
  "linear_map args0 output_size bias bias_start scope identity st =
     (if args0 = TensorList [] then (Inl AssertionError, st)
      else
        (let args = as_list args0;
             shapes = map get_shape args
         in (case shape_loop shapes shapes 0 [] of
               Inl e \<Rightarrow> (Inl e, st)
             | Inr (total_arg_size, n_in_list) \<Rightarrow>
                 variable_scope (scope_or scope ''Linear'')
                   (linear_computation args n_in_list output_size bias bias_start identity) st)))"


section \<open>Cells\<close>

text \<open>
  An object of one of the cell classes: its class and the three sizes that
  \<^verbatim>\<open>steph_RNNCell.__init__\<close> stores in \<^verbatim>\<open>self._input_size\<close>, \<^verbatim>\<open>self._state_size\<close> and
  \<^verbatim>\<open>self._output_size\<close>.
\<close>

datatype cell_class = tanhRNNCell | IRNNCell | LSTMCell | complex_RNNCell | uRNN

record cell =
  cell_class :: cell_class
  self_input_size :: nat
  self_state_size :: nat
  self_output_size :: nat

text \<open>The method of the abstract class takes no inputs and raises.\<close>

definition steph_RNNCell_call :: "cell \<Rightarrow> env \<Rightarrow> (error + tensor \<times> tensor) \<times> env" where
  "steph_RNNCell_call self st = (Inl (NotImplementedError (Some ''Abstract method'')), st)"

definition tanhRNNCell_call ::
  "cell \<Rightarrow> tensor \<Rightarrow> tensor \<Rightarrow> string \<Rightarrow> env \<Rightarrow> (error + tensor \<times> tensor) \<times> env" where
  "tanhRNNCell_call self inputs state scope =
     variable_scope scope
       (\<lambda>st. case linear_map (TensorList [inputs, state]) (self_state_size self) True 0
                     (Some ''Linear/Transition'') (- 1) st of
                (Inl e, st1) \<Rightarrow> (Inl e, st1)
              | (Inr lin, st1) \<Rightarrow>
                  (let new_state = tf_tanh lin in
                   (case linear_map (Tensor new_state) (self_output_size self) True 0
                           (Some ''Linear/Output'') (- 1) st1 of
                      (Inl e, st2) \<Rightarrow> (Inl e, st2)
                    | (Inr output, st2) \<Rightarrow> (Inr (output, new_state), st2))))"

definition IRNNCell_call ::
  "cell \<Rightarrow> tensor \<Rightarrow> tensor \<Rightarrow> string \<Rightarrow> env \<Rightarrow> (error + tensor \<times> tensor) \<times> env" where
  "IRNNCell_call self inputs state scope =
     variable_scope scope
       (\<lambda>st. case linear_map (TensorList [inputs, state]) (self_state_size self) True 0
                     (Some ''Linear/Transition'') 1 st of
                (Inl e, st1) \<Rightarrow> (Inl e, st1)
              | (Inr lin, st1) \<Rightarrow>
                  (let new_state = relu lin in
                   (case linear_map (Tensor new_state) (self_output_size self) True 0
                           (Some ''Linear/Output'') (- 1) st1 of
                      (Inl e, st2) \<Rightarrow> (Inl e, st2)
                    | (Inr output, st2) \<Rightarrow> (Inr (output, new_state), st2))))"

definition LSTMCell_call ::
  "cell \<Rightarrow> tensor \<Rightarrow> tensor \<Rightarrow> string \<Rightarrow> env \<Rightarrow> (error + tensor \<times> tensor) \<times> env" where
  "LSTMCell_call self inputs state scope st = (Inl (NotImplementedError None), st)"

definition complex_RNNCell_call ::
  "cell \<Rightarrow> tensor \<Rightarrow> tensor \<Rightarrow> string \<Rightarrow> env \<Rightarrow> (error + tensor \<times> tensor) \<times> env" where
  "complex_RNNCell_call self inputs state scope st = (Inl (NotImplementedError None), st)"

definition uRNN_call ::
  "cell \<Rightarrow> tensor \<Rightarrow> tensor \<Rightarrow> string \<Rightarrow> env \<Rightarrow> (error + tensor \<times> tensor) \<times> env" where
  "uRNN_call self inputs state scope st = (Inl (NotImplementedError None), st)"

text \<open>
  \<^verbatim>\<open>cell(inputs, state)\<close> or \<^verbatim>\<open>cell(inputs, state, scope)\<close>: the method of the object's class,
  with the default scope of that method when none is passed.
\<close>

definition call ::
  "cell \<Rightarrow> tensor \<Rightarrow> tensor \<Rightarrow> string option \<Rightarrow> env \<Rightarrow> (error + tensor \<times> tensor) \<times> env" where
  "call self inputs state scope =
     (case cell_class self of
        tanhRNNCell \<Rightarrow>
          tanhRNNCell_call self inputs state (case scope of None \<Rightarrow> ''tanhRNN'' | Some s \<Rightarrow> s)
      | IRNNCell \<Rightarrow>
          IRNNCell_call self inputs state (case scope of None \<Rightarrow> ''IRNN'' | Some s \<Rightarrow> s)
      | LSTMCell \<Rightarrow>
          LSTMCell_call self inputs state (case scope of None \<Rightarrow> ''LSTM'' | Some s \<Rightarrow> s)
      | complex_RNNCell \<Rightarrow>
          complex_RNNCell_call self inputs state
            (case scope of None \<Rightarrow> ''complex_RNN'' | Some s \<Rightarrow> s)
      | uRNN \<Rightarrow>
          uRNN_call self inputs state (case scope of None \<Rightarrow> ''uRNN'' | Some s \<Rightarrow> s))"

section \<open>The sequence helper\<close>

text \<open>
  What \<^verbatim>\<open>RNN\<close> takes from TensorFlow: the zero state of a cell, the split of a
  (batch, time, features) input into one (batch, features) slice per time step, and the
  driver \<^verbatim>\<open>rnn.rnn\<close>, which applies the cell to the slices in order under the scope
  \<^verbatim>\<open>RNN\<close> and turns sharing on after the first step.
\<close>

definition zero_state :: "cell \<Rightarrow> nat \<Rightarrow> tensor" where
  "zero_state self batch_size =
     \<lparr>get_shape = [None, Some (self_state_size self)],
      tval = Mat (replicate batch_size (replicate (self_state_size self) 0))\<rparr>"

text \<open>
  \<^verbatim>\<open>tf.shape(x)[0]\<close> is a node of the graph and cannot raise while the graph is built. Its
  value is the length of the first axis; for a tensor whose contents are not modelled it
  is never used.
\<close>

definition dim0 :: "tensor \<Rightarrow> nat" where
  "dim0 x = (case tval x of Vec v \<Rightarrow> length v | Mat A \<Rightarrow> length A | Cube c \<Rightarrow> length c | Other \<Rightarrow> 0)"

text \<open>
  \<^verbatim>\<open>[tf.squeeze(input_, [1]) for input_ in tf.split(1, sequence_length, x)]\<close> for an input of
  rank three whose time axis has length \<^verbatim>\<open>sequence_length\<close>; anything else is rejected by
  \<^verbatim>\<open>split\<close>, by \<^verbatim>\<open>squeeze\<close> or by the shape check of \<^verbatim>\<open>linear\<close>, all with a \<open>ValueError\<close>.
\<close>

definition split_squeeze :: "nat \<Rightarrow> tensor \<Rightarrow> error + tensor list" where
  "split_squeeze sequence_length x =
     (case tval x of
        Cube c \<Rightarrow>
          if 0 < sequence_length \<and> length (get_shape x) = 3
             \<and> list_all (\<lambda>b. length b = sequence_length) c
          then Inr (map (\<lambda>t. \<lparr>get_shape = [get_shape x ! 0, get_shape x ! 2],
                               tval = Mat (map (\<lambda>b. b ! t) c)\<rparr>) [0..<sequence_length])
          else Inl (ValueError ''cannot split and squeeze the time axis'' [get_shape x])
      | _ \<Rightarrow> Inl (ValueError ''cannot split and squeeze the time axis'' [get_shape x]))"

fun rnn_loop ::
  "cell \<Rightarrow> (nat \<times> tensor) list \<Rightarrow> tensor \<Rightarrow> tensor list \<Rightarrow> env
     \<Rightarrow> (error + tensor list \<times> tensor) \<times> env" where
  "rnn_loop cell [] state outputs st = (Inr (outputs, state), st)"
| "rnn_loop cell ((time, input) # rest) state outputs st =
     (case call cell input state None (if 0 < time then st\<lparr>reuse := True\<rparr> else st) of
        (Inl e, st1) \<Rightarrow> (Inl e, st1)
      | (Inr (output, state'), st1) \<Rightarrow> rnn_loop cell rest state' (outputs @ [output]) st1)"

definition rnn_rnn ::
  "cell \<Rightarrow> tensor list \<Rightarrow> tensor \<Rightarrow> env \<Rightarrow> (error + tensor list \<times> tensor) \<times> env" where
  "rnn_rnn cell inputs initial_state st =
     (if inputs = [] then (Inl (ValueError ''inputs must not be empty'' []), st)
      else variable_scope ''RNN'' (rnn_loop cell (enumerate 0 inputs) initial_state []) st)"

text \<open>
  \<^verbatim>\<open>RNN\<close>: the cell is chosen by the string \<^verbatim>\<open>cell_type\<close>; the last branch of the chain
  raises a \<^verbatim>\<open>NotImplementedError\<close> without arguments.
\<close>

definition RNN ::
  "string \<Rightarrow> tensor \<Rightarrow> nat \<Rightarrow> nat \<Rightarrow> nat \<Rightarrow> nat \<Rightarrow> env \<Rightarrow> (error + tensor list) \<times> env" where
  "RNN cell_type x input_size state_size output_size sequence_length st =
     (let batch_size = dim0 x in
      case (if cell_type = ''tanhRNN''
            then Inr \<lparr>cell_class = tanhRNNCell, self_input_size = input_size,
                      self_state_size = state_size, self_output_size = output_size\<rparr>
            else if cell_type = ''IRNN''
            then Inr \<lparr>cell_class = IRNNCell, self_input_size = input_size,
                      self_state_size = state_size, self_output_size = output_size\<rparr>
            else Inl (NotImplementedError None)) of
        Inl e \<Rightarrow> (Inl e, st)
      | Inr cell \<Rightarrow>
          (let state_0 = zero_state cell batch_size in
           (case split_squeeze sequence_length x of
              Inl e \<Rightarrow> (Inl e, st)
            | Inr inputs \<Rightarrow>
                (case rnn_rnn cell inputs state_0 st of
                   (Inl e, st') \<Rightarrow> (Inl e, st')
                 | (Inr (outputs, final_state), st') \<Rightarrow> (Inr outputs, st')))))"

section \<open>Notions used to state the properties\<close>

text \<open>
  The block that the loop writes for an identity index: the rows of the identity matrix,
  each broadcast to the width of the composite matrix.
\<close>

definition identity_block :: "nat \<Rightarrow> nat \<Rightarrow> real list list" where
  "identity_block n c = map (stretch n c) (nd_rows (np_identity n))"

text \<open>
  What one block of the composite matrix looks like after the loop: its height, the
  length of its rows, and either the broadcast identity or entries bounded by the scale of
  the block (the bound needs unit samples from the generator, \<open>us\<close>).
\<close>

definition block_ok :: "int \<Rightarrow> nat \<Rightarrow> bool \<Rightarrow> nat \<times> nat \<Rightarrow> real list list \<Rightarrow> bool" where
  "block_ok ident n_out us e B \<longleftrightarrow>
     length B = snd e \<and> (\<forall>row \<in> set B. length row = n_out) \<and>
     (if int (fst e) = ident
      then (snd e = n_out \<or> snd e = 1) \<and> B = identity_block (snd e) n_out
      else 0 < snd e + n_out \<and>
           (us \<longrightarrow> (\<forall>row \<in> set B. \<forall>x \<in> set row. \<bar>x\<bar> \<le> sqrt (6 / real (snd e + n_out)))))"

text \<open>
  The same for a block of the returned tensor, whose entries have been cast: the bound is
  the scale of the block as single precision rounds it.
\<close>

definition cast_block_ok :: "int \<Rightarrow> nat \<Rightarrow> bool \<Rightarrow> nat \<times> nat \<Rightarrow> real list list \<Rightarrow> bool" where
  "cast_block_ok ident n_out us e B \<longleftrightarrow>
     length B = snd e \<and> (\<forall>row \<in> set B. length row = n_out) \<and>
     (if int (fst e) = ident
      then (snd e = n_out \<or> snd e = 1) \<and> B = identity_block (snd e) n_out
      else 0 < snd e + n_out \<and>
           (us \<longrightarrow> (\<forall>row \<in> set B. \<forall>x \<in> set row.
                     \<bar>x\<bar> \<le> float32 (sqrt (6 / real (snd e + n_out))))))"

text \<open>
  A tensor of rank two with \<open>B\<close> rows and \<open>k\<close> columns: its static shape has two entries,
  the first unknown or \<open>B\<close> and the second \<open>k\<close>, and its contents are \<open>B\<close> rows of
  length \<open>k\<close>.
\<close>

definition rank2 :: "nat \<Rightarrow> nat \<Rightarrow> tensor \<Rightarrow> bool" where
  "rank2 B k t \<longleftrightarrow>
     length (get_shape t) = 2 \<and> compatible_dim (get_shape t ! 0) (Some B)
     \<and> get_shape t ! 1 = Some k
     \<and> (case tval t of Mat A \<Rightarrow> length A = B \<and> list_all (\<lambda>r. length r = k) A | _ \<Rightarrow> False)"

text \<open>
  The product that \<^verbatim>\<open>linear\<close> computes from its arguments and the weight matrix:
  \<^verbatim>\<open>matmul(args[0], matrix)\<close> for one argument, \<^verbatim>\<open>matmul(concat(1, args), matrix)\<close>
  otherwise.
\<close>

definition product :: "tensor list \<Rightarrow> tensor \<Rightarrow> error + tensor" where
  "product ts M =
     (if length ts = 1 then matmul (ts ! 0) M
      else (case concat1 ts of Inl e \<Rightarrow> Inl e | Inr joined \<Rightarrow> matmul joined M))"

text \<open>
  The rows of the arguments side by side, and the rows of a matrix product written with
  dot products of a row and a column.
\<close>

definition joined_rows :: "tensor list \<Rightarrow> real list list" where
  "joined_rows ts = concat_rows (map (\<lambda>t. the (rows_of t)) ts)"

definition times_rows :: "real list list \<Rightarrow> real list list \<Rightarrow> nat \<Rightarrow> real list list" where
  "times_rows X A n = map (\<lambda>row. map (\<lambda>j. dot row (map (\<lambda>br. br ! j) A)) [0..<n]) X"

text \<open>
  The full name of a variable that a cell creates: the scope the cell is called in, the
  scope of the cell, the scope of one of its two linear maps, and the name.
\<close>

definition cell_var :: "env \<Rightarrow> string \<Rightarrow> string \<Rightarrow> string \<Rightarrow> string" where
  "cell_var st sc sub nm = scoped (scoped (scoped (scope_name st) sc) sub) nm"

section \<open>Rounding to single precision\<close>

lemma round_half_even_mono: "a \<le> b \<Longrightarrow> round_half_even a \<le> round_half_even b"
proof -
  assume ab: "a \<le> b"
  have ra: "round_half_even a \<le> \<lfloor>a\<rfloor> + 1" and rb: "\<lfloor>b\<rfloor> \<le> round_half_even b"
    by (simp_all add: round_half_even_def Let_def)
  show ?thesis
  proof (cases "\<lfloor>a\<rfloor> = \<lfloor>b\<rfloor>")
    case True
    with ab show ?thesis by (auto simp: round_half_even_def Let_def)
  next
    case False
    with ab have "\<lfloor>a\<rfloor> < \<lfloor>b\<rfloor>" using floor_mono[OF ab] by simp
    with ra rb show ?thesis by simp
  qed
qed

lemma round_half_even_of_int [simp]: "round_half_even (of_int k) = k"
  by (simp add: round_half_even_def)


lemma float32_magnitude_nonneg: "0 \<le> x \<Longrightarrow> 0 \<le> float32_magnitude x"
proof -
  assume x: "0 \<le> x"
  have "0 \<le> round_half_even (x / u)" if "0 < u" for u
    using round_half_even_mono[of 0 "x / u"] x that round_half_even_of_int[of 0] by simp
  then show ?thesis by (simp add: float32_magnitude_def Let_def)
qed

lemma log2_bounds:
  assumes "0 < x"
  shows "2 powr of_int \<lfloor>log 2 x\<rfloor> \<le> x" and "x < 2 powr (of_int \<lfloor>log 2 x\<rfloor> + 1)"
  using floor_log_eq_powr_iff[of x 2 "\<lfloor>log 2 x\<rfloor>"] assms by simp_all

lemma float32_magnitude_upper:
  assumes "0 < x"
  shows "float32_magnitude x \<le> 2 powr (of_int (max (- 126) \<lfloor>log 2 x\<rfloor>) + 1)"
proof -
  define e where "e = max (- 126) \<lfloor>log 2 x\<rfloor>"
  define u :: real where "u = 2 powr (of_int e - 23)"
  have u: "0 < u" by (simp add: u_def)
  have "x < 2 powr (of_int \<lfloor>log 2 x\<rfloor> + 1)" by (rule log2_bounds[OF assms])
  also have "\<dots> \<le> 2 powr (of_int e + 1)" by (simp add: e_def)
  finally have "x < 2 powr (of_int e + 1)" .
  moreover have "2 powr (of_int e + 1) = of_int (2 ^ 24) * u"
    by (simp add: u_def powr_diff powr_add)
  ultimately have "x / u \<le> of_int (2 ^ 24)" using u by (simp add: field_simps)
  from round_half_even_mono[OF this] have "round_half_even (x / u) \<le> 2 ^ 24"
    by (simp only: round_half_even_of_int)
  then have "real_of_int (round_half_even (x / u)) \<le> of_int (2 ^ 24)"
    by (simp only: of_int_le_iff)
  then have "of_int (round_half_even (x / u)) * u \<le> of_int (2 ^ 24) * u"
    using u by (simp only: mult_le_cancel_right_pos)
  also have "\<dots> = 2 powr (of_int e + 1)" by (simp add: u_def powr_diff powr_add)
  finally show ?thesis using assms by (simp add: float32_magnitude_def Let_def e_def u_def)
qed

lemma float32_magnitude_lower:
  assumes "0 < x" and "- 126 \<le> \<lfloor>log 2 x\<rfloor>"
  shows "2 powr of_int \<lfloor>log 2 x\<rfloor> \<le> float32_magnitude x"
proof -
  define e where "e = \<lfloor>log 2 x\<rfloor>"
  define u :: real where "u = 2 powr (of_int e - 23)"
  have u: "0 < u" by (simp add: u_def)
  have me: "max (- 126) \<lfloor>log 2 x\<rfloor> = e" using assms(2) by (simp add: e_def)
  have pe: "2 powr of_int e = of_int (2 ^ 23) * u" by (simp add: u_def powr_diff)
  have "2 powr of_int e \<le> x" unfolding e_def by (rule log2_bounds[OF assms(1)])
  with pe u have "of_int (2 ^ 23) \<le> x / u" by (simp add: field_simps)
  from round_half_even_mono[OF this] have "2 ^ 23 \<le> round_half_even (x / u)"
    by (simp only: round_half_even_of_int)
  then have "real_of_int (2 ^ 23) \<le> of_int (round_half_even (x / u))"
    by (simp only: of_int_le_iff)
  then have "of_int (2 ^ 23) * u \<le> of_int (round_half_even (x / u)) * u"
    using u by (simp only: mult_le_cancel_right_pos)
  with pe show ?thesis using assms(1) me
    by (simp add: float32_magnitude_def Let_def e_def[symmetric] u_def[symmetric])
qed

lemma float32_magnitude_mono:
  assumes "0 \<le> a" "a \<le> b"
  shows "float32_magnitude a \<le> float32_magnitude b"
proof (cases "a = 0")
  case True
  with assms float32_magnitude_nonneg[of b] show ?thesis by (simp add: float32_magnitude_def)
next
  case False
  with assms have a: "0 < a" and b: "0 < b" by simp_all
  define ea where "ea = max (- 126) \<lfloor>log 2 a\<rfloor>"
  define eb where "eb = max (- 126) \<lfloor>log 2 b\<rfloor>"
  have "log 2 a \<le> log 2 b" using a assms(2) by simp
  then have fl: "\<lfloor>log 2 a\<rfloor> \<le> \<lfloor>log 2 b\<rfloor>" by (rule floor_mono)
  then have le: "ea \<le> eb" by (simp add: ea_def eb_def)
  show ?thesis
  proof (cases "ea = eb")
    case True
    define u :: real where "u = 2 powr (of_int ea - 23)"
    have u: "0 < u" by (simp add: u_def)
    have "a / u \<le> b / u" using assms(2) u by (simp add: divide_right_mono)
    from round_half_even_mono[OF this]
    have "of_int (round_half_even (a / u)) * u \<le> of_int (round_half_even (b / u)) * u"
      using u by simp
    then show ?thesis using a b True
      by (simp add: float32_magnitude_def Let_def ea_def[symmetric] eb_def[symmetric] u_def)
  next
    case False
    with le have lt: "ea + 1 \<le> eb" by simp
    then have big: "- 126 \<le> \<lfloor>log 2 b\<rfloor>" and eb: "eb = \<lfloor>log 2 b\<rfloor>"
      unfolding ea_def eb_def by linarith+
    have "float32_magnitude a \<le> 2 powr (of_int ea + 1)"
      unfolding ea_def by (rule float32_magnitude_upper[OF a])
    also have "\<dots> \<le> 2 powr of_int eb"
    proof -
      have "real_of_int ea + 1 \<le> of_int eb" using lt by linarith
      then show ?thesis by simp
    qed
    also have "\<dots> \<le> float32_magnitude b"
      unfolding eb by (rule float32_magnitude_lower[OF b big])
    finally show ?thesis .
  qed
qed

lemma float32_abs: "\<bar>float32 x\<bar> = float32_magnitude \<bar>x\<bar>"
  using float32_magnitude_nonneg[of x] float32_magnitude_nonneg[of "- x"]
  by (auto simp: float32_def)

lemma float32_bound: "\<bar>x\<bar> \<le> s \<Longrightarrow> \<bar>float32 x\<bar> \<le> float32 s"
proof -
  assume xs: "\<bar>x\<bar> \<le> s"
  then have s: "0 \<le> s" by simp
  have "\<bar>float32 x\<bar> = float32_magnitude \<bar>x\<bar>" by (rule float32_abs)
  also have "\<dots> \<le> float32_magnitude s" by (rule float32_magnitude_mono) (use xs in simp_all)
  also have "\<dots> = float32 s" using s by (simp add: float32_def)
  finally show ?thesis .
qed

lemma float32_zero [simp]: "float32 0 = 0"
  by (simp add: float32_def float32_magnitude_def)

lemma float32_one [simp]: "float32 1 = 1"
proof -
  have "round_half_even (of_int (2 ^ 23)) = 2 ^ 23" by (rule round_half_even_of_int)
  then have "round_half_even 8388608 = 8388608" by simp
  then show ?thesis
    by (simp add: float32_def float32_magnitude_def Let_def powr_minus powr_realpow[of 2 23, simplified] field_simps)
qed


section \<open>The initializer loop\<close>

lemma assign_rows_in_range:
  "nd_shape m = (R, C) \<Longrightarrow> start + n \<le> R \<Longrightarrow>
   assign_rows m start (start + n) v =
     (case broadcast_to v (n, C) of
        Inl e \<Rightarrow> Inl e
      | Inr block \<Rightarrow> Inr (m\<lparr>nd_rows := take start (nd_rows m) @ block @ drop (start + n) (nd_rows m)\<rparr>))"
  by (simp add: assign_rows_def Let_def min_def max_def)

lemma stretch_same [simp]: "stretch n n xs = xs"
  by (simp add: stretch_def)

lemma map_stretch_same [simp]: "map (stretch n n) xs = xs"
  by (induction xs) simp_all

lemma broadcast_uniform:
  "broadcast_to (fst (uniform lo hi (r, c) g)) (r, c) = Inr (nd_rows (fst (uniform lo hi (r, c) g)))"
  by (simp add: broadcast_to_def uniform_def)

lemma broadcast_identity:
  "broadcast_to (np_identity n) (n, c) =
     (if n = c \<or> n = 1 then Inr (identity_block n c)
      else Inl (ValueError ''could not broadcast input array''
                  [[Some n, Some n], [Some n, Some c]]))"
  by (simp add: broadcast_to_def np_identity_def identity_block_def)

lemma length_identity_block [simp]: "length (identity_block n c) = n"
  by (simp add: identity_block_def np_identity_def)

lemma identity_block_square: "identity_block n n = nd_rows (np_identity n)"
  by (simp add: identity_block_def)

lemma identity_block_one: "identity_block 1 c = [replicate c 1]"
  by (auto simp: identity_block_def np_identity_def stretch_def)

lemma uniform_rows_length [simp]: "length (nd_rows (fst (uniform lo hi (r, c) g))) = r"
  by (simp add: uniform_def)

lemma uniform_row_length:
  "row \<in> set (nd_rows (fst (uniform lo hi (r, c) g))) \<Longrightarrow> length row = c"
  by (auto simp: uniform_def)

lemma uniform_bound:
  assumes "unit_samples g" "0 \<le> s" "row \<in> set (nd_rows (fst (uniform (- s) s (r, c) g)))" "x \<in> set row"
  shows "\<bar>x\<bar> \<le> s"
proof -
  from assms(3,4) have "\<exists>k. x = - s + (s - - s) * g k"
    unfolding uniform_def by (auto simp: image_iff)
  then obtain k where x: "x = - s + (s - - s) * g k" ..
  from assms(1) have "0 \<le> g k" "g k < 1" by (auto simp: unit_samples_def)
  then have "0 \<le> 2 * s * g k" "2 * s * g k \<le> 2 * s"
    using assms(2) by (simp_all add: mult_left_le)
  with x show ?thesis by (simp add: abs_le_iff algebra_simps)
qed

lemma unit_samples_shift: "unit_samples g \<Longrightarrow> unit_samples (snd (uniform lo hi sz g))"
  by (cases sz) (simp add: unit_samples_def uniform_def)

lemma identity_block_row_length:
  "n = c \<or> n = 1 \<Longrightarrow> row \<in> set (identity_block n c) \<Longrightarrow> length row = c"
  by (auto simp: identity_block_def np_identity_def stretch_def split: if_splits)

lemma loop_Cons_success:
  assumes run: "fixed_initializer_loop ident n_out ((i, n_in) # rest) rm g M = (Inr M', g')"
      and shape: "nd_shape M = (R, n_out)" and fits: "rm + n_in \<le> R"
  shows "\<exists>B g1. block_ok ident n_out (unit_samples g) (i, n_in) B
            \<and> (unit_samples g \<longrightarrow> unit_samples g1)
            \<and> fixed_initializer_loop ident n_out rest (rm + n_in) g1
                 (M\<lparr>nd_rows := take rm (nd_rows M) @ B @ drop (rm + n_in) (nd_rows M)\<rparr>) = (Inr M', g')"
proof (cases "int i = ident")
  case True
  with run shape fits have ok: "n_in = n_out \<or> n_in = 1"
    by (auto simp: assign_rows_in_range broadcast_identity split: if_splits)
  with run True shape fits
  have "fixed_initializer_loop ident n_out rest (rm + n_in) g
          (M\<lparr>nd_rows := take rm (nd_rows M) @ identity_block n_in n_out @ drop (rm + n_in) (nd_rows M)\<rparr>)
        = (Inr M', g')"
    by (auto simp: assign_rows_in_range broadcast_identity split: if_splits)
  moreover have "block_ok ident n_out (unit_samples g) (i, n_in) (identity_block n_in n_out)"
    using True ok by (auto simp: block_ok_def identity_block_row_length)
  ultimately show ?thesis by blast
next
  case False
  with run have pos: "0 < n_in + n_out" by (auto split: if_splits)
  define s where "s = sqrt (6 / real (n_in + n_out))"
  define U where "U = uniform (- s) s (n_in, n_out) g"
  have s0: "0 \<le> s" by (simp add: s_def)
  have step: "fixed_initializer_loop ident n_out ((i, n_in) # rest) rm g M =
      (case assign_rows M rm (rm + n_in) (fst U) of
         Inl e \<Rightarrow> (Inl e, snd U)
       | Inr m' \<Rightarrow> fixed_initializer_loop ident n_out rest (rm + n_in) (snd U) m')"
    unfolding U_def s_def using False pos by (auto simp add: Let_def split_beta simp del: of_nat_add)
  have "assign_rows M rm (rm + n_in) (fst U) =
      Inr (M\<lparr>nd_rows := take rm (nd_rows M) @ nd_rows (fst U) @ drop (rm + n_in) (nd_rows M)\<rparr>)"
    by (simp add: assign_rows_in_range[OF shape fits] U_def broadcast_uniform)
  with step run
  have "fixed_initializer_loop ident n_out rest (rm + n_in) (snd U)
          (M\<lparr>nd_rows := take rm (nd_rows M) @ nd_rows (fst U) @ drop (rm + n_in) (nd_rows M)\<rparr>)
        = (Inr M', g')"
    by simp
  moreover have "block_ok ident n_out (unit_samples g) (i, n_in) (nd_rows (fst U))"
  proof -
    have bnd: "unit_samples g \<longrightarrow> (\<forall>row \<in> set (nd_rows (fst U)). \<forall>x \<in> set row. \<bar>x\<bar> \<le> s)"
      unfolding U_def using uniform_bound[OF _ s0] by blast
    have len: "\<forall>row \<in> set (nd_rows (fst U)). length row = n_out"
      unfolding U_def by (auto simp: uniform_row_length)
    have "length (nd_rows (fst U)) = n_in"
      unfolding U_def by simp
    with bnd len False pos show ?thesis
      unfolding block_ok_def s_def by simp
  qed
  moreover have "unit_samples g \<longrightarrow> unit_samples (snd U)"
    unfolding U_def by (simp add: unit_samples_shift)
  ultimately show ?thesis by blast
qed

lemma block_ok_mono:
  "block_ok ident n_out us1 e B \<Longrightarrow> (us \<longrightarrow> us1) \<Longrightarrow> block_ok ident n_out us e B"
  by (auto simp: block_ok_def)

lemma splice_facts:
  assumes "length B = n" "rm + n \<le> length xs"
  defines "ys \<equiv> take rm xs @ B @ drop (rm + n) xs"
  shows "length ys = length xs"
    and "take rm (take (rm + n) ys) = take rm xs"
    and "take n (drop rm (take (rm + n) ys)) = B"
    and "drop (rm + n + k) ys = drop (rm + n + k) xs"
  using assms by (auto simp: ys_def min_def ac_simps)

lemma loop_result:
  assumes "fixed_initializer_loop ident n_out es rm g M = (Inr M', g')"
      and "nd_shape M = (R, n_out)" and "length (nd_rows M) = R"
      and "rm + sum_list (map snd es) \<le> R"
  shows "nd_shape M' = (R, n_out) \<and> length (nd_rows M') = R
       \<and> take rm (nd_rows M') = take rm (nd_rows M)
       \<and> drop (rm + sum_list (map snd es)) (nd_rows M')
           = drop (rm + sum_list (map snd es)) (nd_rows M)
       \<and> (\<forall>k<length es. block_ok ident n_out (unit_samples g) (es ! k)
              (take (snd (es ! k)) (drop (rm + sum_list (map snd (take k es))) (nd_rows M'))))"
  using assms
proof (induction es arbitrary: rm g M)
  case Nil
  then show ?case by simp
next
  case (Cons e es)
  obtain i n_in where e: "e = (i, n_in)" by (cases e)
  from Cons.prems(4) e have fits: "rm + n_in \<le> R" by simp
  from loop_Cons_success[OF Cons.prems(1)[unfolded e] Cons.prems(2) fits]
  obtain B g1 where B: "block_ok ident n_out (unit_samples g) (i, n_in) B"
    and g1: "unit_samples g \<longrightarrow> unit_samples g1"
    and rest: "fixed_initializer_loop ident n_out es (rm + n_in) g1
                 (M\<lparr>nd_rows := take rm (nd_rows M) @ B @ drop (rm + n_in) (nd_rows M)\<rparr>) = (Inr M', g')"
    by blast
  define M1 where "M1 = M\<lparr>nd_rows := take rm (nd_rows M) @ B @ drop (rm + n_in) (nd_rows M)\<rparr>"
  from B have lenB: "length B = n_in" by (simp add: block_ok_def)
  from fits Cons.prems(3) have fits': "rm + n_in \<le> length (nd_rows M)" by simp
  note sp = splice_facts[OF lenB fits']
  have shape1: "nd_shape M1 = (R, n_out)" using Cons.prems(2) by (simp add: M1_def)
  have len1: "length (nd_rows M1) = R" using sp(1) Cons.prems(3) by (simp add: M1_def)
  have sum1: "rm + n_in + sum_list (map snd es) \<le> R" using Cons.prems(4) e by simp
  from Cons.IH[OF rest[folded M1_def] shape1 len1 sum1]
  have ih_shape: "nd_shape M' = (R, n_out)" and ih_len: "length (nd_rows M') = R"
    and ih_take: "take (rm + n_in) (nd_rows M') = take (rm + n_in) (nd_rows M1)"
    and ih_drop: "drop (rm + n_in + sum_list (map snd es)) (nd_rows M')
                  = drop (rm + n_in + sum_list (map snd es)) (nd_rows M1)"
    and ih_blocks: "\<forall>k<length es. block_ok ident n_out (unit_samples g1) (es ! k)
              (take (snd (es ! k)) (drop (rm + n_in + sum_list (map snd (take k es))) (nd_rows M')))"
    by blast+
  have t1: "take rm (nd_rows M') = take rm (nd_rows M)"
  proof -
    have "take rm (nd_rows M') = take rm (take (rm + n_in) (nd_rows M'))" by simp
    also have "\<dots> = take rm (take (rm + n_in) (nd_rows M1))" by (simp only: ih_take)
    also have "\<dots> = take rm (nd_rows M)" using sp(2) by (simp add: M1_def)
    finally show ?thesis .
  qed
  have d1: "drop (rm + sum_list (map snd (e # es))) (nd_rows M')
            = drop (rm + sum_list (map snd (e # es))) (nd_rows M)"
    using ih_drop sp(4)[of "sum_list (map snd es)"] by (simp add: e M1_def add.assoc)
  have b0: "take n_in (drop rm (nd_rows M')) = B"
  proof -
    have "take n_in (drop rm (nd_rows M')) = take n_in (drop rm (take (rm + n_in) (nd_rows M')))"
      by (simp add: drop_take)
    also have "\<dots> = take n_in (drop rm (take (rm + n_in) (nd_rows M1)))" by (simp only: ih_take)
    also have "\<dots> = B" using sp(3) by (simp add: M1_def)
    finally show ?thesis .
  qed
  have blocks: "block_ok ident n_out (unit_samples g) ((e # es) ! k)
              (take (snd ((e # es) ! k)) (drop (rm + sum_list (map snd (take k (e # es)))) (nd_rows M')))"
    if "k < length (e # es)" for k
  proof (cases k)
    case 0
    with B b0 show ?thesis by (simp add: e)
  next
    case (Suc k')
    with that have "k' < length es" by simp
    with ih_blocks have "block_ok ident n_out (unit_samples g1) (es ! k')
              (take (snd (es ! k')) (drop (rm + n_in + sum_list (map snd (take k' es))) (nd_rows M')))"
      by blast
    from block_ok_mono[OF this g1] show ?thesis by (simp add: Suc e add.assoc)
  qed
  from ih_shape ih_len t1 d1 blocks show ?case by blast
qed

lemma loop_Cons_eq:
  assumes shape: "nd_shape M = (R, n_out)" and fits: "rm + n_in \<le> R"
  shows "fixed_initializer_loop ident n_out ((i, n_in) # rest) rm g M =
     (if int i = ident then
        (if n_in = n_out \<or> n_in = 1
         then fixed_initializer_loop ident n_out rest (rm + n_in) g
                (M\<lparr>nd_rows := take rm (nd_rows M) @ identity_block n_in n_out
                                  @ drop (rm + n_in) (nd_rows M)\<rparr>)
         else (Inl (ValueError ''could not broadcast input array''
                      [[Some n_in, Some n_in], [Some n_in, Some n_out]]), g))
      else if n_in + n_out = 0 then (Inl ZeroDivisionError, g)
      else fixed_initializer_loop ident n_out rest (rm + n_in)
             (snd (uniform (- sqrt (6 / real (n_in + n_out))) (sqrt (6 / real (n_in + n_out)))
                     (n_in, n_out) g))
             (M\<lparr>nd_rows := take rm (nd_rows M)
                   @ nd_rows (fst (uniform (- sqrt (6 / real (n_in + n_out)))
                                     (sqrt (6 / real (n_in + n_out))) (n_in, n_out) g))
                   @ drop (rm + n_in) (nd_rows M)\<rparr>))"
  by (simp add: assign_rows_in_range[OF shape fits] broadcast_identity broadcast_uniform
        Let_def split_beta del: of_nat_add)

lemma loop_succeeds:
  assumes "nd_shape M = (R, n_out)" and "rm + sum_list (map snd es) \<le> R"
      and "\<forall>e \<in> set es. (int (fst e) = ident \<longrightarrow> snd e = n_out \<or> snd e = 1)
                       \<and> (int (fst e) \<noteq> ident \<longrightarrow> 0 < snd e + n_out)"
  shows "\<exists>M' g'. fixed_initializer_loop ident n_out es rm g M = (Inr M', g')"
  using assms
proof (induction es arbitrary: rm g M)
  case Nil
  then show ?case by simp
next
  case (Cons e es)
  obtain i n_in where e: "e = (i, n_in)" by (cases e)
  from Cons.prems(2) e have fits: "rm + n_in \<le> R" by simp
  have sum1: "rm + n_in + sum_list (map snd es) \<le> R" using Cons.prems(2) e by simp
  have rest: "\<forall>e \<in> set es. (int (fst e) = ident \<longrightarrow> snd e = n_out \<or> snd e = 1)
                       \<and> (int (fst e) \<noteq> ident \<longrightarrow> 0 < snd e + n_out)"
    using Cons.prems(3) by simp
  have here: "(int i = ident \<longrightarrow> n_in = n_out \<or> n_in = 1) \<and> (int i \<noteq> ident \<longrightarrow> 0 < n_in + n_out)"
    using Cons.prems(3) e by simp
  have ih: "\<exists>M' g'. fixed_initializer_loop ident n_out es (rm + n_in) g1 (M\<lparr>nd_rows := rows1\<rparr>) = (Inr M', g')"
    for g1 rows1
    by (rule Cons.IH[OF _ sum1 rest]) (simp add: Cons.prems(1))
  show ?case
    unfolding e loop_Cons_eq[OF Cons.prems(1) fits] using here ih by auto
qed

lemma loop_fails:
  assumes "nd_shape M = (R, n_out)" and "rm + sum_list (map snd es) \<le> R"
      and "k < length es" and "int (fst (es ! k)) = ident"
      and "\<forall>j<k. int (fst (es ! j)) \<noteq> ident \<and> 0 < snd (es ! j) + n_out"
      and "snd (es ! k) \<noteq> n_out" and "snd (es ! k) \<noteq> 1"
  shows "\<exists>g'. fixed_initializer_loop ident n_out es rm g M =
           (Inl (ValueError ''could not broadcast input array''
                   [[Some (snd (es ! k)), Some (snd (es ! k))],
                    [Some (snd (es ! k)), Some n_out]]), g')"
  using assms
proof (induction es arbitrary: k rm g M)
  case Nil
  then show ?case by simp
next
  case (Cons e es)
  obtain i n_in where e: "e = (i, n_in)" by (cases e)
  from Cons.prems(2) e have fits: "rm + n_in \<le> R" by simp
  have sum1: "rm + n_in + sum_list (map snd es) \<le> R" using Cons.prems(2) e by simp
  show ?case
  proof (cases k)
    case 0
    with Cons.prems e show ?thesis
      unfolding e loop_Cons_eq[OF Cons.prems(1) fits] by simp
  next
    case (Suc k')
    with Cons.prems(5) e have here: "int i \<noteq> ident" "0 < n_in + n_out" by auto
    have k': "k' < length es" using Cons.prems(3) Suc by simp
    have a4: "int (fst (es ! k')) = ident" using Cons.prems(4) Suc by simp
    have a5: "\<forall>j<k'. int (fst (es ! j)) \<noteq> ident \<and> 0 < snd (es ! j) + n_out"
      using Cons.prems(5) Suc by auto
    have a6: "snd (es ! k') \<noteq> n_out" "snd (es ! k') \<noteq> 1" using Cons.prems(6,7) Suc by simp_all
    have ih: "\<exists>g'. fixed_initializer_loop ident n_out es (rm + n_in) g1 (M\<lparr>nd_rows := rows1\<rparr>) =
           (Inl (ValueError ''could not broadcast input array''
                   [[Some (snd (es ! k')), Some (snd (es ! k'))],
                    [Some (snd (es ! k')), Some n_out]]), g')" for g1 rows1
      by (rule Cons.IH[OF _ sum1 k' a4 a5 a6]) (simp add: Cons.prems(1))
    show ?thesis
      unfolding e loop_Cons_eq[OF Cons.prems(1) fits] using here ih by (simp add: Suc)
  qed
qed

lemma loop_rows_length:
  assumes "fixed_initializer_loop ident n_out es rm g M = (Inr M', g')"
      and "nd_shape M = (R, n_out)" and "rm + sum_list (map snd es) \<le> R"
      and "\<forall>row \<in> set (nd_rows M). length row = n_out"
  shows "\<forall>row \<in> set (nd_rows M'). length row = n_out"
  using assms
proof (induction es arbitrary: rm g M)
  case Nil
  then show ?case by simp
next
  case (Cons e es)
  obtain i n_in where e: "e = (i, n_in)" by (cases e)
  from Cons.prems(3) e have fits: "rm + n_in \<le> R" by simp
  from loop_Cons_success[OF Cons.prems(1)[unfolded e] Cons.prems(2) fits]
  obtain B g1 where B: "block_ok ident n_out (unit_samples g) (i, n_in) B"
    and rest: "fixed_initializer_loop ident n_out es (rm + n_in) g1
                 (M\<lparr>nd_rows := take rm (nd_rows M) @ B @ drop (rm + n_in) (nd_rows M)\<rparr>) = (Inr M', g')"
    by blast
  have sum1: "rm + n_in + sum_list (map snd es) \<le> R" using Cons.prems(3) e by simp
  have "\<forall>row \<in> set (take rm (nd_rows M) @ B @ drop (rm + n_in) (nd_rows M)). length row = n_out"
    using B Cons.prems(4) by (auto simp: block_ok_def dest: in_set_takeD in_set_dropD)
  then show ?case
    using Cons.IH[OF rest _ sum1] Cons.prems(2) by simp
qed

lemma identity_block_entries:
  assumes "n = c \<or> n = 1" "row \<in> set (identity_block n c)" "x \<in> set row"
  shows "x = 0 \<or> x = 1"
  using assms
  by (auto simp: identity_block_def np_identity_def stretch_def split: if_splits)

lemma identity_block_cast:
  assumes "n = c \<or> n = 1"
  shows "map (map float32) (identity_block n c) = identity_block n c"
proof -
  have "map float32 row = row" if "row \<in> set (identity_block n c)" for row
  proof (rule map_idI)
    fix x assume "x \<in> set row"
    from identity_block_entries[OF assms that this] show "float32 x = x" by auto
  qed
  then show ?thesis by (simp add: map_idI)
qed

lemma block_ok_cast:
  assumes "block_ok ident n_out us e B"
  shows "cast_block_ok ident n_out us e (map (map float32) B)"
proof (cases "int (fst e) = ident")
  case True
  with assms have ok: "snd e = n_out \<or> snd e = 1" and B: "B = identity_block (snd e) n_out"
    by (simp_all add: block_ok_def)
  from assms True identity_block_cast[OF ok] B show ?thesis
    by (simp add: block_ok_def cast_block_ok_def)
next
  case False
  with assms show ?thesis
    by (auto simp: block_ok_def cast_block_ok_def intro: float32_bound)
qed

lemma fixed_initializer_result:
  assumes "fixed_initializer ns n_out ident g = (Inr M, g')"
  shows "\<exists>A. M = \<lparr>get_shape = [Some (sum_list ns), Some n_out], tval = Mat A\<rparr>
            \<and> length A = sum_list ns \<and> (\<forall>row \<in> set A. length row = n_out)
            \<and> (\<forall>k<length ns. cast_block_ok ident n_out (unit_samples g) (k, ns ! k)
                   (take (ns ! k) (drop (sum_list (take k ns)) A)))"
proof -
  from assms obtain M0 where
    run: "fixed_initializer_loop ident n_out (enumerate 0 ns) 0 g (np_empty (sum_list ns, n_out)) = (Inr M0, g')"
    and M: "M = tf_constant M0"
    by (auto simp: fixed_initializer_def split: prod.splits sum.splits)
  have shape0: "nd_shape (np_empty (sum_list ns, n_out)) = (sum_list ns, n_out)"
    and len0: "length (nd_rows (np_empty (sum_list ns, n_out))) = sum_list ns"
    and rows0: "\<forall>row \<in> set (nd_rows (np_empty (sum_list ns, n_out))). length row = n_out"
    by (simp_all add: np_empty_def)
  have fits: "0 + sum_list (map snd (enumerate 0 ns)) \<le> sum_list ns" by simp
  from loop_result[OF run shape0 len0 fits]
  have shape: "nd_shape M0 = (sum_list ns, n_out)" and len: "length (nd_rows M0) = sum_list ns"
    and blocks: "\<forall>k<length (enumerate 0 ns). block_ok ident n_out (unit_samples g) (enumerate 0 ns ! k)
              (take (snd (enumerate 0 ns ! k))
                 (drop (0 + sum_list (map snd (take k (enumerate 0 ns)))) (nd_rows M0)))"
    by blast+
  have "cast_block_ok ident n_out (unit_samples g) (k, ns ! k)
          (take (ns ! k) (drop (sum_list (take k ns)) (map (map float32) (nd_rows M0))))"
    if "k < length ns" for k
  proof -
    have eq: "map snd (take k (enumerate 0 ns)) = take k ns"
      by (simp add: take_map[symmetric])
    from blocks that
    have "block_ok ident n_out (unit_samples g) (enumerate 0 ns ! k)
              (take (snd (enumerate 0 ns ! k))
                 (drop (0 + sum_list (map snd (take k (enumerate 0 ns)))) (nd_rows M0)))"
      by simp
    with that have "block_ok ident n_out (unit_samples g) (k, ns ! k)
          (take (ns ! k) (drop (sum_list (take k ns)) (nd_rows M0)))"
      by (simp add: nth_enumerate_eq eq)
    from block_ok_cast[OF this] show ?thesis by (simp add: take_map drop_map)
  qed
  moreover have "\<forall>row \<in> set (map (map float32) (nd_rows M0)). length row = n_out"
    using loop_rows_length[OF run shape0 fits rows0] by auto
  ultimately show ?thesis using shape len M by (simp add: tf_constant_def)
qed

lemma fixed_initializer_succeeds:
  assumes "\<forall>k<length ns. (int k = ident \<longrightarrow> ns ! k = n_out \<or> ns ! k = 1)
                        \<and> (int k \<noteq> ident \<longrightarrow> 0 < ns ! k + n_out)"
  shows "\<exists>M g'. fixed_initializer ns n_out ident g = (Inr M, g')"
proof -
  have "\<forall>e \<in> set (enumerate 0 ns). (int (fst e) = ident \<longrightarrow> snd e = n_out \<or> snd e = 1)
                       \<and> (int (fst e) \<noteq> ident \<longrightarrow> 0 < snd e + n_out)"
    using assms by (auto simp: in_set_enumerate_eq)
  from loop_succeeds[OF _ _ this, of "np_empty (sum_list ns, n_out)" "sum_list ns" 0 g]
  obtain M' g' where
    "fixed_initializer_loop ident n_out (enumerate 0 ns) 0 g (np_empty (sum_list ns, n_out)) = (Inr M', g')"
    by (auto simp: np_empty_def)
  then show ?thesis by (simp add: fixed_initializer_def)
qed

lemma fixed_initializer_fails:
  assumes "i < length ns" and "\<forall>j<i. 0 < ns ! j + n_out" and "ns ! i \<noteq> n_out" and "ns ! i \<noteq> 1"
  shows "\<exists>g'. fixed_initializer ns n_out (int i) g =
           (Inl (ValueError ''could not broadcast input array''
                   [[Some (ns ! i), Some (ns ! i)], [Some (ns ! i), Some n_out]]), g')"
proof -
  have "\<exists>g'. fixed_initializer_loop (int i) n_out (enumerate 0 ns) 0 g (np_empty (sum_list ns, n_out)) =
           (Inl (ValueError ''could not broadcast input array''
                   [[Some (snd (enumerate 0 ns ! i)), Some (snd (enumerate 0 ns ! i))],
                    [Some (snd (enumerate 0 ns ! i)), Some n_out]]), g')"
    by (rule loop_fails[where R = "sum_list ns"])
       (use assms in \<open>auto simp: np_empty_def nth_enumerate_eq\<close>)
  with assms(1) show ?thesis
    by (auto simp: fixed_initializer_def nth_enumerate_eq)
qed

section \<open>Properties of the composite-weight initializer\<close>




text \<open>
  C2, as the code has it. Let \<open>i\<close> be an index of the list and let no other block divide
  by zero. With \<open>identity = i\<close>: when \<open>n_in_list[i] = n_out\<close> the call returns a matrix
  whose block \<open>i\<close> is the identity matrix; when \<open>n_in_list[i] = 1\<close> it also returns a
  matrix, and block \<open>i\<close> is one row of \<open>n_out\<close> ones, the one-by-one identity broadcast
  along the row; for every other \<open>n_in_list[i]\<close> the call raises the \<open>ValueError\<close> of
  the slice assignment.
\<close>

theorem fixed_initializer_identity_block:
  assumes "i < length n_in_list"
      and "\<forall>j<length n_in_list. j \<noteq> i \<longrightarrow> 0 < n_in_list ! j + n_out"
  shows "(n_in_list ! i = n_out \<longrightarrow>
            (\<exists>A g'. fixed_initializer n_in_list n_out (int i) g =
                 (Inr \<lparr>get_shape = [Some (sum_list n_in_list), Some n_out], tval = Mat A\<rparr>, g')
               \<and> take n_out (drop (sum_list (take i n_in_list)) A) = nd_rows (np_identity n_out)))
       \<and> (n_in_list ! i = 1 \<longrightarrow>
            (\<exists>A g'. fixed_initializer n_in_list n_out (int i) g =
                 (Inr \<lparr>get_shape = [Some (sum_list n_in_list), Some n_out], tval = Mat A\<rparr>, g')
               \<and> take 1 (drop (sum_list (take i n_in_list)) A) = [replicate n_out 1]))
       \<and> (n_in_list ! i \<noteq> n_out \<and> n_in_list ! i \<noteq> 1 \<longrightarrow>
            (\<exists>g'. fixed_initializer n_in_list n_out (int i) g =
                 (Inl (ValueError ''could not broadcast input array''
                         [[Some (n_in_list ! i), Some (n_in_list ! i)],
                          [Some (n_in_list ! i), Some n_out]]), g')))"
proof -
  have good: "\<exists>A g'. fixed_initializer n_in_list n_out (int i) g =
                 (Inr \<lparr>get_shape = [Some (sum_list n_in_list), Some n_out], tval = Mat A\<rparr>, g')
               \<and> take (n_in_list ! i) (drop (sum_list (take i n_in_list)) A)
                   = identity_block (n_in_list ! i) n_out"
    if ok: "n_in_list ! i = n_out \<or> n_in_list ! i = 1"
  proof -
    have "\<forall>k<length n_in_list. (int k = int i \<longrightarrow> n_in_list ! k = n_out \<or> n_in_list ! k = 1)
                        \<and> (int k \<noteq> int i \<longrightarrow> 0 < n_in_list ! k + n_out)"
      using ok assms(2) by auto
    from fixed_initializer_succeeds[OF this]
    obtain M g' where run: "fixed_initializer n_in_list n_out (int i) g = (Inr M, g')" by blast
    from fixed_initializer_result[OF run]
    obtain A where M: "M = \<lparr>get_shape = [Some (sum_list n_in_list), Some n_out], tval = Mat A\<rparr>"
      and blocks: "\<forall>k<length n_in_list. cast_block_ok (int i) n_out (unit_samples g) (k, n_in_list ! k)
                   (take (n_in_list ! k) (drop (sum_list (take k n_in_list)) A))"
      by blast
    from blocks assms(1)
    have "cast_block_ok (int i) n_out (unit_samples g) (i, n_in_list ! i)
            (take (n_in_list ! i) (drop (sum_list (take i n_in_list)) A))"
      by blast
    then have "take (n_in_list ! i) (drop (sum_list (take i n_in_list)) A)
                 = identity_block (n_in_list ! i) n_out"
      by (simp add: cast_block_ok_def)
    with run M show ?thesis by blast
  qed
  have square: "n_in_list ! i = n_out \<longrightarrow>
            (\<exists>A g'. fixed_initializer n_in_list n_out (int i) g =
                 (Inr \<lparr>get_shape = [Some (sum_list n_in_list), Some n_out], tval = Mat A\<rparr>, g')
               \<and> take n_out (drop (sum_list (take i n_in_list)) A) = nd_rows (np_identity n_out))"
    using good by (auto simp: identity_block_square)
  have one: "n_in_list ! i = 1 \<longrightarrow>
            (\<exists>A g'. fixed_initializer n_in_list n_out (int i) g =
                 (Inr \<lparr>get_shape = [Some (sum_list n_in_list), Some n_out], tval = Mat A\<rparr>, g')
               \<and> take 1 (drop (sum_list (take i n_in_list)) A) = [replicate n_out 1])"
    using good by (auto simp: identity_block_one[unfolded One_nat_def])
  have bad: "n_in_list ! i \<noteq> n_out \<and> n_in_list ! i \<noteq> 1 \<longrightarrow>
            (\<exists>g'. fixed_initializer n_in_list n_out (int i) g =
                 (Inl (ValueError ''could not broadcast input array''
                         [[Some (n_in_list ! i), Some (n_in_list ! i)],
                          [Some (n_in_list ! i), Some n_out]]), g'))"
    using fixed_initializer_fails[OF assms(1), of n_out g] assms by auto
  from square one bad show ?thesis by blast
qed

theorem fixed_initializer_identity_block_witness:
  "(\<exists>A g'. fixed_initializer [2, 3] 3 1 (\<lambda>k. 1 / 2) =
          (Inr \<lparr>get_shape = [Some 5, Some 3], tval = Mat A\<rparr>, g')
        \<and> take 3 (drop 2 A) = [[1, 0, 0], [0, 1, 0], [0, 0, 1]])
   \<and> (\<exists>g'. fixed_initializer [2, 3] 4 1 (\<lambda>k. 1 / 2) =
          (Inl (ValueError ''could not broadcast input array''
                  [[Some 3, Some 3], [Some 3, Some 4]]), g'))"
proof -
  have h: "(1::nat) < length [2, 3::nat]" by simp
  have h3: "\<forall>j<length [2, 3::nat]. j \<noteq> 1 \<longrightarrow> 0 < [2, 3::nat] ! j + 3" by simp
  have h4: "\<forall>j<length [2, 3::nat]. j \<noteq> 1 \<longrightarrow> 0 < [2, 3::nat] ! j + 4" by simp
  have id3: "nd_rows (np_identity 3) = [[1, 0, 0], [0, 1, 0], [0, 0, 1]]"
    by (simp add: np_identity_def upt_rec)
  from fixed_initializer_identity_block[OF h h3, of "\<lambda>k. 1 / 2"]
       fixed_initializer_identity_block[OF h h4, of "\<lambda>k. 1 / 2"] id3
  show ?thesis by simp
qed

text \<open>
  C2 as the specification states it fails: a block of height one is accepted whatever the
  output dimension is. \<open>fixed_initializer [1] 3\<close> with \<open>identity = 0\<close> returns the row of
  three ones, although \<open>1 \<noteq> 3\<close>.
\<close>

theorem fixed_initializer_identity_counterexample:
  "[1::nat] ! 0 \<noteq> 3
   \<and> fst (fixed_initializer [1] 3 0 (\<lambda>k. 1 / 2))
       = Inr \<lparr>get_shape = [Some 1, Some 3], tval = Mat [[1, 1, 1]]\<rparr>"
  by (simp add: fixed_initializer_def np_empty_def assign_rows_def broadcast_to_def
        np_identity_def stretch_def tf_constant_def numeral_3_eq_3)

section \<open>The fused linear map: lemmas\<close>

lemma shape_loop_bad:
  "\<exists>s \<in> set rest. length s \<noteq> 2 \<or> s ! 1 = None \<or> s ! 1 = Some 0 \<Longrightarrow>
   shape_loop shapes rest tot acc = Inl (ValueError ''Linear is expecting 2D arguments: %s'' shapes)
   \<or> shape_loop shapes rest tot acc
       = Inl (ValueError ''Linear expects shape[1] of arguments: %s'' shapes)"
proof (induction rest arbitrary: tot acc)
  case Nil
  then show ?case by simp
next
  case (Cons s rest)
  show ?case
  proof (cases "length s \<noteq> 2 \<or> s ! 1 = None \<or> s ! 1 = Some 0")
    case True
    then show ?thesis by (auto split: option.splits)
  next
    case False
    with Cons.prems have "\<exists>s \<in> set rest. length s \<noteq> 2 \<or> s ! 1 = None \<or> s ! 1 = Some 0"
      by auto
    from Cons.IH[OF this] False show ?thesis by (auto split: option.splits)
  qed
qed

lemma bias_name_neq_matrix_name [simp]: "scoped p ''Bias'' \<noteq> scoped p ''Matrix''"
  by (simp add: scoped_def)

lemma get_variable_frame:
  assumes "get_variable nm shp init st = (r, st')"
  shows "generator st' = generator st \<and> scope_name st' = scope_name st \<and> reuse st' = reuse st
       \<and> (\<forall>k. k \<noteq> scoped (scope_name st) nm \<longrightarrow> vars st' k = vars st k)
       \<and> (\<forall>v. r = Inr v \<longrightarrow> vars st' (scoped (scope_name st) nm) = Some v)"
  using assms
  by (auto simp: get_variable_def Let_def split: option.splits if_splits)

lemma get_variable_create:
  assumes "\<not> reuse st" "vars st (scoped (scope_name st) nm) = None"
  shows "get_variable nm shp init st
           = (Inr init, st\<lparr>vars := (vars st)(scoped (scope_name st) nm \<mapsto> init)\<rparr>)"
  using assms by (simp add: get_variable_def)

lemma linear_computation_no_bias:
  assumes "linear_computation ts ks n False c ident st = (r, st')"
  shows "scope_name st' = scope_name st \<and> reuse st' = reuse st
       \<and> (\<forall>k. k \<noteq> scoped (scope_name st) ''Matrix'' \<longrightarrow> vars st' k = vars st k)
       \<and> (\<forall>res. r = Inr res \<longrightarrow>
             (\<exists>M. vars st' (scoped (scope_name st) ''Matrix'') = Some M \<and> product ts M = Inr res))
       \<and> linear_computation ts ks n False c' ident st = (r, st')"
proof (cases "fixed_initializer ks n ident (generator st)")
  case (Pair i g')
  show ?thesis
  proof (cases i)
    case (Inl e)
    with Pair assms show ?thesis by (auto simp: linear_computation_def)
  next
    case (Inr init)
    obtain r1 st1 where gv: "get_variable ''Matrix'' None init (st\<lparr>generator := g'\<rparr>) = (r1, st1)"
      by (cases "get_variable ''Matrix'' None init (st\<lparr>generator := g'\<rparr>)")
    note fr = get_variable_frame[OF gv]
    show ?thesis
    proof (cases r1)
      case (Inl e)
      with Pair Inr gv assms fr show ?thesis by (auto simp: linear_computation_def)
    next
      case (Inr matrix)
      note m = this
      from Pair \<open>i = Inr init\<close> gv m assms
      have r: "r = product ts matrix" and st': "st' = st1"
        by (auto simp: linear_computation_def product_def split: sum.splits)
      have same: "linear_computation ts ks n False c' ident st = (r, st')"
        using Pair \<open>i = Inr init\<close> gv m r st'
        by (auto simp: linear_computation_def product_def split: sum.splits)
      from fr m r st' same show ?thesis by auto
    qed
  qed
qed

lemma rank2_rows:
  assumes "rank2 B k t"
  shows "\<exists>A. rows_of t = Some A \<and> tval t = Mat A \<and> length A = B \<and> (\<forall>r \<in> set A. length r = k)"
  using assms by (auto simp: rank2_def rows_of_def list_all_iff split: tval.splits)

lemma rank2_shape:
  "rank2 B k t \<Longrightarrow> length (get_shape t) = 2 \<and> get_shape t ! 1 = Some k
     \<and> compatible_dim (get_shape t ! 0) (Some B)"
  by (simp add: rank2_def)

lemma shape_loop_ok:
  assumes "length ks = length ss"
      and "\<forall>i<length ss. length (ss ! i) = 2 \<and> ss ! i ! 1 = Some (ks ! i) \<and> 0 < ks ! i"
  shows "shape_loop shapes ss tot acc = Inr (tot + sum_list ks, acc @ ks)"
  using assms
proof (induction ss arbitrary: ks tot acc)
  case Nil
  then show ?case by simp
next
  case (Cons s ss)
  then obtain k ks' where ks: "ks = k # ks'" by (cases ks) auto
  from Cons.prems(2) ks have s: "length s = 2" "s ! 1 = Some k" "0 < k"
    by (auto dest: spec[of _ 0])
  have rest: "\<forall>i<length ss. length (ss ! i) = 2 \<and> ss ! i ! 1 = Some (ks' ! i) \<and> 0 < ks' ! i"
    using Cons.prems(2) ks by (auto dest: spec[of _ "Suc i" for i])
  from Cons.prems(1) ks have len: "length ks' = length ss" by simp
  show ?case using s Cons.IH[OF len rest] by (simp add: ks)
qed

lemma matmul_ok:
  assumes "rows_of a = Some A" "rows_of b = Some Bm" "\<forall>r \<in> set A. length r = length Bm"
  shows "matmul a b = Inr \<lparr>get_shape = [get_shape a ! 0, get_shape b ! 1],
            tval = Mat (map (\<lambda>row. map (\<lambda>j. dot row (map (\<lambda>br. br ! j) Bm)) [0..<ncols b Bm]) A)\<rparr>"
  using assms by (simp add: matmul_def list_all_iff)

lemma concat_rows_shape:
  assumes "As \<noteq> []" "length ks = length As"
      and "\<forall>i<length As. length (As ! i) = B \<and> (\<forall>r \<in> set (As ! i). length r = ks ! i)"
  shows "length (concat_rows As) = B \<and> (\<forall>r \<in> set (concat_rows As). length r = sum_list ks)"
  using assms
proof (induction As arbitrary: ks rule: concat_rows.induct)
  case 1
  then show ?case by simp
next
  case (2 A)
  then obtain k where "ks = [k]" by (cases ks) auto
  with 2 show ?case by auto
next
  case (3 A A' As)
  then obtain k ks' where ks: "ks = k # ks'" by (cases ks) auto
  from "3.prems"(3) ks have A: "length A = B" "\<forall>r \<in> set A. length r = k"
    by (auto dest: spec[of _ 0])
  have rest: "\<forall>i<length (A' # As). length ((A' # As) ! i) = B
                \<and> (\<forall>r \<in> set ((A' # As) ! i). length r = ks' ! i)"
  proof (intro allI impI)
    fix i assume "i < length (A' # As)"
    with "3.prems"(3)[rule_format, of "Suc i"] ks
    show "length ((A' # As) ! i) = B \<and> (\<forall>r \<in> set ((A' # As) ! i). length r = ks' ! i)"
      by simp
  qed
  from "3.prems"(2) ks have len: "length ks' = length (A' # As)" by simp
  from "3.IH"[OF _ len rest]
  have ih: "length (concat_rows (A' # As)) = B"
    "\<forall>r \<in> set (concat_rows (A' # As)). length r = sum_list ks'" by simp_all
  have "length (concat_rows (A # A' # As)) = B" using A ih by simp
  moreover have "\<forall>r \<in> set (concat_rows (A # A' # As)). length r = sum_list ks"
    using A ih by (auto simp: ks set_zip)
  ultimately show ?case by blast
qed

lemma merge_dims_compatible:
  "\<forall>d \<in> set ds. compatible_dim d (Some B) \<Longrightarrow> compatible_dim (foldr merge_dim ds None) (Some B)"
proof (induction ds)
  case Nil
  then show ?case by simp
next
  case (Cons d ds)
  then show ?case by (cases d) simp_all
qed

lemma concat1_ok:
  assumes "ts \<noteq> []" "length ks = length ts"
      and "\<forall>i<length ts. rank2 B (ks ! i) (ts ! i)"
  shows "\<exists>J. concat1 ts = Inr J \<and> rank2 B (sum_list ks) J
            \<and> tval J = Mat (concat_rows (map (\<lambda>t. the (rows_of t)) ts))"
proof -
  have each: "\<And>t. t \<in> set ts \<Longrightarrow> \<exists>k. rank2 B k t"
    using assms(3) by (auto simp: in_set_conv_nth)
  have r1: "list_all (\<lambda>t. rows_of t \<noteq> None) ts"
    using each rank2_rows by (fastforce simp: list_all_iff)
  have lens: "\<And>t. t \<in> set ts \<Longrightarrow> length (the (rows_of t)) = B"
    using each rank2_rows by fastforce
  have r2: "list_all (\<lambda>t. length (the (rows_of t)) = length (the (rows_of (hd ts)))) ts"
    using lens assms(1) by (simp add: list_all_iff)
  have r3: "list_all (\<lambda>t. get_shape t ! 1 \<noteq> None) ts"
    using each rank2_shape by (fastforce simp: list_all_iff)
  have dims: "map (\<lambda>t. the (get_shape t ! 1)) ts = ks"
    using assms(2,3) rank2_shape by (auto simp: list_eq_iff_nth_eq)
  define J where "J = \<lparr>get_shape =
                  [foldr merge_dim (map (\<lambda>t. get_shape t ! 0) ts) None, Some (sum_list ks)],
                tval = Mat (concat_rows (map (\<lambda>t. the (rows_of t)) ts))\<rparr>"
  have c: "concat1 ts = Inr J"
    using assms(1) r1 r2 r3 dims by (simp add: concat1_def J_def)
  have "\<forall>i<length (map (\<lambda>t. the (rows_of t)) ts).
          length (map (\<lambda>t. the (rows_of t)) ts ! i) = B
          \<and> (\<forall>r \<in> set (map (\<lambda>t. the (rows_of t)) ts ! i). length r = ks ! i)"
  proof (intro allI impI)
    fix i assume "i < length (map (\<lambda>t. the (rows_of t)) ts)"
    then have i: "i < length ts" by simp
    from rank2_rows[OF assms(3)[rule_format, OF i]] i
    show "length (map (\<lambda>t. the (rows_of t)) ts ! i) = B
          \<and> (\<forall>r \<in> set (map (\<lambda>t. the (rows_of t)) ts ! i). length r = ks ! i)"
      by auto
  qed
  from concat_rows_shape[OF _ _ this] assms(1,2)
  have sh: "length (concat_rows (map (\<lambda>t. the (rows_of t)) ts)) = B"
    "\<forall>r \<in> set (concat_rows (map (\<lambda>t. the (rows_of t)) ts)). length r = sum_list ks"
    by simp_all
  have "\<forall>d \<in> set (map (\<lambda>t. get_shape t ! 0) ts). compatible_dim d (Some B)"
    using each rank2_shape by fastforce
  from merge_dims_compatible[OF this] sh have "rank2 B (sum_list ks) J"
    by (simp add: rank2_def J_def list_all_iff)
  with c show ?thesis by (auto simp: J_def)
qed

lemma product_ok:
  assumes ne: "ts \<noteq> []" and len: "length ks = length ts"
      and valid: "\<forall>i<length ts. rank2 B (ks ! i) (ts ! i)"
      and M: "M = \<lparr>get_shape = [Some (sum_list ks), Some n], tval = Mat A\<rparr>"
      and lenA: "length A = sum_list ks"
  shows "\<exists>P. product ts M = Inr P \<and> rank2 B n P
            \<and> tval P = Mat (times_rows (joined_rows ts) A n)"
proof -
  have rM: "rows_of M = Some A" and cM: "ncols M A = n" and sM: "get_shape M ! 1 = Some n"
    by (simp_all add: M rows_of_def ncols_def)
  from concat1_ok[OF ne len valid] obtain J where J: "concat1 ts = Inr J"
    and rJ: "rank2 B (sum_list ks) J" and vJ: "tval J = Mat (joined_rows ts)"
    by (auto simp: joined_rows_def)
  have fin: "\<exists>P. matmul X M = Inr P \<and> rank2 B n P \<and> tval P = Mat (times_rows Xr A n)"
    if X: "rank2 B (sum_list ks) X" and Xr: "tval X = Mat Xr" for X Xr
  proof -
    from rank2_rows[OF X] Xr have rX: "rows_of X = Some Xr" and lX: "length Xr = B"
      and wX: "\<forall>r \<in> set Xr. length r = sum_list ks" by auto
    from wX lenA have "\<forall>r \<in> set Xr. length r = length A" by simp
    from matmul_ok[OF rX rM this]
    have mm: "matmul X M = Inr \<lparr>get_shape = [get_shape X ! 0, get_shape M ! 1],
            tval = Mat (times_rows Xr A n)\<rparr>"
      by (simp add: cM times_rows_def)
    have "rank2 B n \<lparr>get_shape = [get_shape X ! 0, get_shape M ! 1], tval = Mat (times_rows Xr A n)\<rparr>"
      using rank2_shape[OF X] lX by (simp add: rank2_def M times_rows_def list_all_iff)
    with mm show ?thesis by auto
  qed
  show ?thesis
  proof (cases "length ts = 1")
    case True
    then obtain x where ts: "ts = [x]" by (cases ts) auto
    with len obtain k where ks: "ks = [k]" by (cases ks) auto
    from valid ts ks have X: "rank2 B (sum_list ks) x" by simp
    from rank2_rows[OF X] obtain Xr where Xr: "tval x = Mat Xr" "rows_of x = Some Xr" by auto
    then have "joined_rows ts = Xr" by (simp add: joined_rows_def ts)
    with fin[OF X Xr(1)] show ?thesis by (simp add: product_def ts)
  next
    case False
    with fin[OF rJ vJ] J show ?thesis by (simp add: product_def)
  qed
qed

lemma tf_add_bias:
  assumes "rank2 B n P" "tval P = Mat Pr"
  shows "tf_add P (constant_initializer c n) = Inr (P\<lparr>tval := Mat (map (map (\<lambda>x. x + c)) Pr)\<rparr>)"
proof -
  from rank2_rows[OF assms(1)] assms(2) have rP: "rows_of P = Some Pr"
    and w: "\<forall>r \<in> set Pr. length r = n" by auto
  have row: "add_row r (replicate n c) = Some (map (\<lambda>x. x + c) r)" if "r \<in> set Pr" for r
  proof -
    from w that have l: "length r = n" by simp
    have "map2 (+) r (replicate n c) = map (\<lambda>x. x + c) r"
      unfolding l[symmetric] by (induction r) simp_all
    with l show ?thesis by (simp add: add_row_def)
  qed
  have all: "list_all (\<lambda>r. add_row r (replicate n c) \<noteq> None) Pr"
    using row by (simp add: list_all_iff)
  have rows: "map (\<lambda>r. the (add_row r (replicate n c))) Pr = map (map (\<lambda>x. x + c)) Pr"
    using row by simp
  obtain sh v where P: "P = \<lparr>get_shape = sh, tval = v\<rparr>" by (cases P) simp
  from rank2_shape[OF assms(1)] P obtain p0 where sh: "sh = [p0, Some n]"
    by (cases sh; cases "tl sh") auto
  show ?thesis
    using rP all rows by (auto simp: tf_add_def constant_initializer_def P sh)
qed

lemma linear_fresh:
  assumes ne: "as_list a \<noteq> []"
      and len: "length ks = length (as_list a)"
      and valid: "\<forall>i<length (as_list a). rank2 B (ks ! i) (as_list a ! i) \<and> 0 < ks ! i"
      and nr: "\<not> reuse st"
      and fm: "vars st (scoped (scoped (scope_name st) (scope_or scope ''Linear'')) ''Matrix'') = None"
      and fb: "bias \<longrightarrow>
                 vars st (scoped (scoped (scope_name st) (scope_or scope ''Linear'')) ''Bias'') = None"
      and init: "fixed_initializer ks n ident (generator st) = (Inr M, g')"
      and M: "M = \<lparr>get_shape = [Some (sum_list ks), Some n], tval = Mat A\<rparr>"
      and lenA: "length A = sum_list ks"
  shows "\<exists>P. product (as_list a) M = Inr P \<and> rank2 B n P
            \<and> tval P = Mat (times_rows (joined_rows (as_list a)) A n)
            \<and> linear_map a n bias c scope ident st =
                (Inr (if bias
                      then P\<lparr>tval := Mat (map (map (\<lambda>x. x + c))
                                            (times_rows (joined_rows (as_list a)) A n))\<rparr>
                      else P),
                 st\<lparr>generator := g',
                    vars :=
                      (if bias
                       then (vars st)
                              (scoped (scoped (scope_name st) (scope_or scope ''Linear'')) ''Matrix''
                                 \<mapsto> M,
                               scoped (scoped (scope_name st) (scope_or scope ''Linear'')) ''Bias''
                                 \<mapsto> constant_initializer c n)
                       else (vars st)
                              (scoped (scoped (scope_name st) (scope_or scope ''Linear'')) ''Matrix''
                                 \<mapsto> M))\<rparr>)"
proof -
  define ts where "ts = as_list a"
  define p where "p = scoped (scope_name st) (scope_or scope ''Linear'')"
  define st0 where "st0 = st\<lparr>scope_name := p\<rparr>"
  define st1 where "st1 = st0\<lparr>generator := g', vars := (vars st)(scoped p ''Matrix'' \<mapsto> M)\<rparr>"
  from ne have ane: "a \<noteq> TensorList []" by auto
  have shapes: "\<forall>i<length (map get_shape ts). length (map get_shape ts ! i) = 2
                  \<and> map get_shape ts ! i ! 1 = Some (ks ! i) \<and> 0 < ks ! i"
    using valid rank2_shape by (auto simp: ts_def)
  have sl: "shape_loop (map get_shape ts) (map get_shape ts) 0 [] = Inr (sum_list ks, ks)"
    using shape_loop_ok[OF _ shapes, of "map get_shape ts" 0 "[]"] len by (simp add: ts_def)
  have lm: "linear_map a n bias c scope ident st =
              variable_scope (scope_or scope ''Linear'')
                (linear_computation ts ks n bias c ident) st"
    using ane sl by (simp add: linear_map_def Let_def ts_def)
  have valid': "\<forall>i<length ts. rank2 B (ks ! i) (ts ! i)" using valid by (simp add: ts_def)
  from product_ok[OF ne[folded ts_def] len[folded ts_def] valid' M lenA]
  obtain P where P: "product ts M = Inr P" and rP: "rank2 B n P"
    and vP: "tval P = Mat (times_rows (joined_rows ts) A n)" by blast
  have gm: "get_variable ''Matrix'' None M (st0\<lparr>generator := g'\<rparr>) = (Inr M, st1)"
    using get_variable_create[of "st0\<lparr>generator := g'\<rparr>" "''Matrix''" None M] nr fm
    by (simp add: st0_def st1_def p_def)
  have prod_unfold: "(if length ts = 1 then matmul (ts ! 0) M
                     else (case concat1 ts of Inl e \<Rightarrow> Inl e | Inr joined \<Rightarrow> matmul joined M))
                    = Inr P"
    using P by (simp add: product_def)
  have init0: "fixed_initializer ks n ident (generator st0) = (Inr M, g')"
    using init by (simp add: st0_def)
  show ?thesis
  proof (cases bias)
    case False
    have "linear_computation ts ks n bias c ident st0 = (Inr P, st1)"
      unfolding linear_computation_def init0 using False gm prod_unfold by simp
    then have "linear_map a n bias c scope ident st
                 = (Inr P, st1\<lparr>scope_name := scope_name st, reuse := reuse st\<rparr>)"
      by (simp add: lm variable_scope_def st0_def p_def)
    moreover have "st1\<lparr>scope_name := scope_name st, reuse := reuse st\<rparr>
                     = st\<lparr>generator := g', vars := (vars st)(scoped p ''Matrix'' \<mapsto> M)\<rparr>"
      by (simp add: st1_def st0_def)
    ultimately show ?thesis using False P rP vP by (simp add: ts_def p_def)
  next
    case True
    define st2 where "st2 = st1\<lparr>vars := (vars st1)(scoped p ''Bias'' \<mapsto> constant_initializer c n)\<rparr>"
    have "vars st1 (scoped (scope_name st1) ''Bias'') = None"
      using fb True by (simp add: st1_def st0_def p_def)
    moreover have "\<not> reuse st1" using nr by (simp add: st1_def st0_def)
    ultimately have gb: "get_variable ''Bias'' (Some [Some n]) (constant_initializer c n) st1
                           = (Inr (constant_initializer c n), st2)"
      using get_variable_create[of st1 "''Bias''"] by (simp add: st2_def st1_def st0_def)
    note add = tf_add_bias[OF rP vP, of c]
    have "linear_computation ts ks n bias c ident st0
            = (Inr (P\<lparr>tval := Mat (map (map (\<lambda>x. x + c)) (times_rows (joined_rows ts) A n))\<rparr>), st2)"
      unfolding linear_computation_def init0 using True gm prod_unfold gb add by simp
    then have "linear_map a n bias c scope ident st
                 = (Inr (P\<lparr>tval := Mat (map (map (\<lambda>x. x + c)) (times_rows (joined_rows ts) A n))\<rparr>),
                    st2\<lparr>scope_name := scope_name st, reuse := reuse st\<rparr>)"
      by (simp add: lm variable_scope_def st0_def p_def)
    moreover have "st2\<lparr>scope_name := scope_name st, reuse := reuse st\<rparr>
                     = st\<lparr>generator := g',
                          vars := (vars st)(scoped p ''Matrix'' \<mapsto> M,
                                            scoped p ''Bias'' \<mapsto> constant_initializer c n)\<rparr>"
      by (simp add: st2_def st1_def st0_def)
    ultimately show ?thesis using True P rP vP by (simp add: ts_def p_def)
  qed
qed

section \<open>Properties of the fused linear map\<close>

text \<open>
  C3. Let the arguments of \<^verbatim>\<open>linear\<close> be tensors of rank two with the same number of rows
  and known, nonzero feature dimensions \<open>ks\<close>, and let the matrix and the bias not exist
  yet in the scope (and sharing be off), so that both are created with their initial
  values. Then the call returns; the matrix is the one \<^verbatim>\<open>fixed_initializer\<close> builds for
  \<open>ks\<close>, in the order of the arguments; the result is \<^verbatim>\<open>args[0] @ matrix\<close> for one
  argument and \<^verbatim>\<open>concat(1, args) @ matrix\<close> for several; with a bias it is that product
  with \<open>bias_start\<close> added to every entry, and without a bias it is the product itself.
  The product has one row for each row of the arguments and \<open>output_size\<close> columns.
\<close>

theorem linear_fresh_is_product:
  assumes "as_list a \<noteq> []"
      and "length ks = length (as_list a)"
      and "\<forall>i<length (as_list a). rank2 B (ks ! i) (as_list a ! i) \<and> 0 < ks ! i"
      and "\<not> reuse st"
      and "vars st (scoped (scoped (scope_name st) (scope_or scope ''Linear'')) ''Matrix'') = None"
      and "bias \<longrightarrow>
             vars st (scoped (scoped (scope_name st) (scope_or scope ''Linear'')) ''Bias'') = None"
  shows "\<exists>M g' P Pr st'.
           fixed_initializer ks n (- 1) (generator st) = (Inr M, g')
         \<and> vars st' (scoped (scoped (scope_name st) (scope_or scope ''Linear'')) ''Matrix'') = Some M
         \<and> (if length (as_list a) = 1 then matmul (as_list a ! 0) M
             else (case concat1 (as_list a) of
                     Inl e \<Rightarrow> Inl e
                   | Inr joined \<Rightarrow> matmul joined M)) = Inr P
         \<and> rank2 B n P \<and> tval P = Mat Pr
         \<and> linear_map a n bias c scope (- 1) st =
             (Inr (if bias then P\<lparr>tval := Mat (map (map (\<lambda>x. x + c)) Pr)\<rparr> else P), st')"
proof -
  have "\<forall>k<length ks. (int k = - 1 \<longrightarrow> ks ! k = n \<or> ks ! k = 1) \<and> (int k \<noteq> - 1 \<longrightarrow> 0 < ks ! k + n)"
    using assms(2,3) by simp
  from fixed_initializer_succeeds[OF this, of "generator st"]
  obtain M g' where init: "fixed_initializer ks n (- 1) (generator st) = (Inr M, g')" by blast
  from fixed_initializer_result[OF init]
  obtain A where M: "M = \<lparr>get_shape = [Some (sum_list ks), Some n], tval = Mat A\<rparr>"
    and lenA: "length A = sum_list ks" by blast
  from linear_fresh[OF assms init M lenA, of c]
  obtain P where P: "product (as_list a) M = Inr P" and rP: "rank2 B n P"
    and vP: "tval P = Mat (times_rows (joined_rows (as_list a)) A n)"
    and lm: "linear_map a n bias c scope (- 1) st =
                (Inr (if bias
                      then P\<lparr>tval := Mat (map (map (\<lambda>x. x + c))
                                            (times_rows (joined_rows (as_list a)) A n))\<rparr>
                      else P),
                 st\<lparr>generator := g',
                    vars :=
                      (if bias
                       then (vars st)
                              (scoped (scoped (scope_name st) (scope_or scope ''Linear'')) ''Matrix''
                                 \<mapsto> M,
                               scoped (scoped (scope_name st) (scope_or scope ''Linear'')) ''Bias''
                                 \<mapsto> constant_initializer c n)
                       else (vars st)
                              (scoped (scoped (scope_name st) (scope_or scope ''Linear'')) ''Matrix''
                                 \<mapsto> M))\<rparr>)"
    by blast
  let ?st' = "st\<lparr>generator := g',
                    vars :=
                      (if bias
                       then (vars st)
                              (scoped (scoped (scope_name st) (scope_or scope ''Linear'')) ''Matrix''
                                 \<mapsto> M,
                               scoped (scoped (scope_name st) (scope_or scope ''Linear'')) ''Bias''
                                 \<mapsto> constant_initializer c n)
                       else (vars st)
                              (scoped (scoped (scope_name st) (scope_or scope ''Linear'')) ''Matrix''
                                 \<mapsto> M))\<rparr>"
  have v: "vars ?st' (scoped (scoped (scope_name st) (scope_or scope ''Linear'')) ''Matrix'') = Some M"
    using bias_name_neq_matrix_name[THEN not_sym] by simp
  from init v P[unfolded product_def] rP vP lm show ?thesis by blast
qed

theorem linear_fresh_is_product_witness:
  "\<exists>M g' P Pr st'.
      fixed_initializer [2, 1] 2 (- 1) (\<lambda>k. 3 / 4) = (Inr M, g')
    \<and> vars st' ''Linear/Matrix'' = Some M
    \<and> (case concat1 [\<lparr>get_shape = [Some 1, Some 2], tval = Mat [[1, 2]]\<rparr>,
                      \<lparr>get_shape = [None, Some 1], tval = Mat [[3]]\<rparr>] of
          Inl e \<Rightarrow> Inl e
        | Inr joined \<Rightarrow> matmul joined M) = Inr P
    \<and> rank2 1 2 P \<and> tval P = Mat Pr
    \<and> linear_map (TensorList [\<lparr>get_shape = [Some 1, Some 2], tval = Mat [[1, 2]]\<rparr>,
                               \<lparr>get_shape = [None, Some 1], tval = Mat [[3]]\<rparr>])
          2 True 5 None (- 1)
          \<lparr>generator = (\<lambda>k. 3 / 4), scope_name = [], reuse = False, vars = Map.empty\<rparr>
        = (Inr (P\<lparr>tval := Mat (map (map (\<lambda>x. x + 5)) Pr)\<rparr>), st')"
  using linear_fresh_is_product
    [of "TensorList [\<lparr>get_shape = [Some 1, Some 2], tval = Mat [[1, 2]]\<rparr>,
                     \<lparr>get_shape = [None, Some 1], tval = Mat [[3]]\<rparr>]"
        "[2, 1]" 1
        "\<lparr>generator = (\<lambda>k. 3 / 4), scope_name = [], reuse = False, vars = Map.empty\<rparr>"
        None True 2 5]
  by (simp add: rank2_def scoped_def scope_or_def less_Suc_eq all_conj_distrib)

text \<open>
  C6. When an argument of \<^verbatim>\<open>linear\<close> is not of rank two, or its second dimension is
  unknown or zero, the call raises one of the two \<open>ValueError\<close>s of the shape loop; the
  error carries the shapes of all arguments, the offending one among them; nothing is
  returned and no variable is created.
\<close>

theorem linear_rejects_bad_shapes:
  assumes "\<exists>t \<in> set (as_list a).
             length (get_shape t) \<noteq> 2 \<or> get_shape t ! 1 = None \<or> get_shape t ! 1 = Some 0"
  shows "linear_map a n bias c scope ident st =
           (Inl (ValueError ''Linear is expecting 2D arguments: %s'' (map get_shape (as_list a))), st)
       \<or> linear_map a n bias c scope ident st =
           (Inl (ValueError ''Linear expects shape[1] of arguments: %s''
                   (map get_shape (as_list a))), st)"
proof -
  from assms have ne: "a \<noteq> TensorList []" by auto
  from assms have "\<exists>s \<in> set (map get_shape (as_list a)).
      length s \<noteq> 2 \<or> s ! 1 = None \<or> s ! 1 = Some 0"
    by auto
  from shape_loop_bad[OF this, of "map get_shape (as_list a)" 0 "[]"] ne
  show ?thesis by (auto simp: linear_map_def Let_def)
qed

theorem linear_rejects_bad_shapes_witness:
  "linear_map (TensorList [\<lparr>get_shape = [Some 2, Some 3], tval = Mat [[1, 2, 3], [4, 5, 6]]\<rparr>,
                           \<lparr>get_shape = [Some 2, None], tval = Mat [[1], [2]]\<rparr>])
      4 True 0 None (- 1)
      \<lparr>generator = (\<lambda>k. 1 / 2), scope_name = [], reuse = False, vars = Map.empty\<rparr>
   = (Inl (ValueError ''Linear expects shape[1] of arguments: %s''
             [[Some 2, Some 3], [Some 2, None]]),
      \<lparr>generator = (\<lambda>k. 1 / 2), scope_name = [], reuse = False, vars = Map.empty\<rparr>)"
  using linear_rejects_bad_shapes
    [of "TensorList [\<lparr>get_shape = [Some 2, Some 3], tval = Mat [[1, 2, 3], [4, 5, 6]]\<rparr>,
                     \<lparr>get_shape = [Some 2, None], tval = Mat [[1], [2]]\<rparr>]"
        4 True 0 None "- 1"
        "\<lparr>generator = (\<lambda>k. 1 / 2), scope_name = [], reuse = False, vars = Map.empty\<rparr>"]
  by (simp add: linear_map_def)

text \<open>
  C7. With \<^verbatim>\<open>bias = False\<close>, whatever the call does (return or raise): the variable named
  \<^verbatim>\<open>Bias\<close> in the scope of the call is as it was, no variable other than the matrix is
  created or changed, a returned result is the product with the matrix alone, and
  \<^verbatim>\<open>bias_start\<close> has no influence on the outcome.
\<close>

theorem linear_without_bias:
  assumes "linear_map a n False c scope ident st = (r, st')"
  shows "vars st' (scoped (scoped (scope_name st) (scope_or scope ''Linear'')) ''Bias'')
           = vars st (scoped (scoped (scope_name st) (scope_or scope ''Linear'')) ''Bias'')
       \<and> (\<forall>k. k \<noteq> scoped (scoped (scope_name st) (scope_or scope ''Linear'')) ''Matrix''
              \<longrightarrow> vars st' k = vars st k)
       \<and> (\<forall>res. r = Inr res \<longrightarrow>
             (\<exists>M. vars st' (scoped (scoped (scope_name st) (scope_or scope ''Linear'')) ''Matrix'')
                     = Some M
                \<and> (if length (as_list a) = 1 then matmul (as_list a ! 0) M
                    else (case concat1 (as_list a) of
                            Inl e \<Rightarrow> Inl e
                          | Inr joined \<Rightarrow> matmul joined M)) = Inr res))
       \<and> linear_map a n False c' scope ident st = (r, st')"
proof (cases "a = TensorList []")
  case True
  with assms show ?thesis by (auto simp: linear_map_def)
next
  case False
  show ?thesis
  proof (cases "shape_loop (map get_shape (as_list a)) (map get_shape (as_list a)) 0 []")
    case (Inl e)
    with False assms show ?thesis by (auto simp: linear_map_def Let_def)
  next
    case (Inr p)
    obtain tot ks where p: "p = (tot, ks)" by (cases p)
    define st0 where "st0 = st\<lparr>scope_name := scoped (scope_name st) (scope_or scope ''Linear'')\<rparr>"
    obtain r0 st1 where lc: "linear_computation (as_list a) ks n False c ident st0 = (r0, st1)"
      by (cases "linear_computation (as_list a) ks n False c ident st0")
    from False Inr p lc assms
    have r: "r = r0" and st': "st' = st1\<lparr>scope_name := scope_name st, reuse := reuse st\<rparr>"
      by (auto simp: linear_map_def Let_def variable_scope_def st0_def)
    note nb = linear_computation_no_bias[OF lc, of c']
    have same: "linear_map a n False c' scope ident st = (r, st')"
      using False Inr p nb r st' by (simp add: linear_map_def Let_def variable_scope_def st0_def)
    from nb r st' same show ?thesis by (auto simp: st0_def product_def)
  qed
qed

theorem linear_without_bias_witness:
  "vars (snd (linear_map (Tensor \<lparr>get_shape = [Some 1, Some 2], tval = Mat [[1, 2]]\<rparr>) 4 False 0 None (- 1)
                \<lparr>generator = (\<lambda>k. 3 / 4), scope_name = [], reuse = False, vars = Map.empty\<rparr>))
      ''Linear/Bias'' = None"
  using linear_without_bias
    [of "Tensor \<lparr>get_shape = [Some 1, Some 2], tval = Mat [[1, 2]]\<rparr>" 4 0 None "- 1"
        "\<lparr>generator = (\<lambda>k. 3 / 4), scope_name = [], reuse = False, vars = Map.empty\<rparr>"
        "fst (linear_map (Tensor \<lparr>get_shape = [Some 1, Some 2], tval = Mat [[1, 2]]\<rparr>) 4 False 0 None (- 1)
                \<lparr>generator = (\<lambda>k. 3 / 4), scope_name = [], reuse = False, vars = Map.empty\<rparr>)"
        "snd (linear_map (Tensor \<lparr>get_shape = [Some 1, Some 2], tval = Mat [[1, 2]]\<rparr>) 4 False 0 None (- 1)
                \<lparr>generator = (\<lambda>k. 3 / 4), scope_name = [], reuse = False, vars = Map.empty\<rparr>)"]
  by (simp add: scoped_def scope_or_def)

text \<open>
  C10. \<^verbatim>\<open>linear\<close> with the empty list of arguments fails the assertion: the error is an
  \<open>AssertionError\<close>, not a \<open>ValueError\<close>, and the generator, the scope and the variables
  are as they were.
\<close>

theorem linear_empty_args:
  "linear_map (TensorList []) n bias c scope ident st = (Inl AssertionError, st)"
  by (simp add: linear_map_def)

section \<open>The cells: lemmas\<close>

lemma dot_zeros: "\<forall>x \<in> set xs. x = 0 \<Longrightarrow> dot xs ys = 0"
  unfolding dot_def
proof (induction xs arbitrary: ys)
  case Nil
  then show ?case by simp
next
  case (Cons x xs)
  then show ?case by (cases ys) simp_all
qed

lemma dot_append:
  "length xs = length ys \<Longrightarrow> dot (xs @ us) (ys @ vs) = dot xs ys + dot us vs"
  by (simp add: dot_def)

lemma dot_unit:
  assumes "j < n" "length s = n"
  shows "dot s (map (\<lambda>i. if i = j then 1 else 0) [0..<n]) = s ! j"
proof -
  have "dot s (map (\<lambda>i. if i = j then 1 else 0) [0..<n])
          = (\<Sum>i = 0..<n. s ! i * (if i = j then 1 else 0))"
    unfolding dot_def using assms(2)
    by (subst sum_list_sum_nth) (auto intro!: sum.cong)
  also have "\<dots> = (\<Sum>i = 0..<n. if i = j then s ! i else 0)"
    by (rule sum.cong) simp_all
  also have "\<dots> = s ! j" using assms(1) by simp
  finally show ?thesis .
qed

lemma identity_column:
  "j < n \<Longrightarrow> map (\<lambda>br. br ! j) (nd_rows (np_identity n)) = map (\<lambda>i. if i = j then 1 else 0) [0..<n]"
  by (simp add: np_identity_def)

lemma times_rows_zero:
  assumes "\<forall>row \<in> set X. \<forall>x \<in> set row. x = 0"
  shows "times_rows X A n = replicate (length X) (replicate n 0)"
proof -
  have "map (\<lambda>j. dot row (map (\<lambda>br. br ! j) A)) [0..<n] = replicate n 0" if "row \<in> set X" for row
  proof -
    from assms that have "\<forall>x \<in> set row. x = 0" by blast
    then have "\<And>j. dot row (map (\<lambda>br. br ! j) A) = 0" by (rule dot_zeros)
    then show ?thesis by (simp add: map_replicate_const)
  qed
  then have "times_rows X A n = map (\<lambda>row. replicate n 0) X"
    by (simp add: times_rows_def)
  then show ?thesis by (simp add: map_replicate_const)
qed

lemma times_rows_identity_block:
  assumes X: "length X = length S" "\<forall>row \<in> set X. length row = length U \<and> (\<forall>x \<in> set row. x = 0)"
      and S: "\<forall>row \<in> set S. length row = n"
  shows "times_rows (map2 (@) X S) (U @ nd_rows (np_identity n)) n = S"
proof -
  have row: "map (\<lambda>j. dot (x @ s) (map (\<lambda>br. br ! j) (U @ nd_rows (np_identity n)))) [0..<n] = s"
    if "x \<in> set X" "s \<in> set S" for x s
  proof -
    from X(2) that have lx: "length x = length U" and zx: "\<forall>v \<in> set x. v = 0" by auto
    from S that have ls: "length s = n" by simp
    have "dot (x @ s) (map (\<lambda>br. br ! j) (U @ nd_rows (np_identity n))) = s ! j" if "j < n" for j
    proof -
      have "dot (x @ s) (map (\<lambda>br. br ! j) (U @ nd_rows (np_identity n)))
              = dot x (map (\<lambda>br. br ! j) U) + dot s (map (\<lambda>br. br ! j) (nd_rows (np_identity n)))"
        using lx by (simp add: dot_append)
      also have "\<dots> = s ! j"
        using dot_zeros[OF zx] dot_unit[OF that ls] identity_column[OF that] by simp
      finally show ?thesis .
    qed
    then have "map (\<lambda>j. dot (x @ s) (map (\<lambda>br. br ! j) (U @ nd_rows (np_identity n)))) [0..<n]
                 = map (\<lambda>j. s ! j) [0..<n]"
      by simp
    also have "\<dots> = s" using ls map_nth[of s] by simp
    finally show ?thesis .
  qed
  have "times_rows (map2 (@) X S) (U @ nd_rows (np_identity n)) n
          = map (\<lambda>(x, s). s) (zip X S)"
    unfolding times_rows_def map_map
    by (rule map_cong) (auto simp: row[simplified] elim: in_set_zipE)
  also have "\<dots> = S" using X(1) by (simp add: map_snd_zip flip: snd_def[abs_def] case_prod_unfold)
  finally show ?thesis .
qed

lemma cell_var_eq:
  "sub \<noteq> [] \<Longrightarrow>
   cell_var st sc sub nm
     = (if scoped (scope_name st) sc = [] then [] else scoped (scope_name st) sc @ ''/'')
       @ sub @ ''/'' @ nm"
  by (simp add: cell_var_def scoped_def)

lemma cell_var_distinct:
  "cell_var st sc ''Linear/Output'' ''Matrix'' \<noteq> cell_var st sc ''Linear/Transition'' ''Matrix''"
  "cell_var st sc ''Linear/Output'' ''Matrix'' \<noteq> cell_var st sc ''Linear/Transition'' ''Bias''"
  "cell_var st sc ''Linear/Output'' ''Bias'' \<noteq> cell_var st sc ''Linear/Transition'' ''Matrix''"
  "cell_var st sc ''Linear/Output'' ''Bias'' \<noteq> cell_var st sc ''Linear/Transition'' ''Bias''"
  by (simp_all add: cell_var_eq)

lemma rank2_map_tval:
  "rank2 B k t \<Longrightarrow> rank2 B k (t\<lparr>tval := map_tval f (tval t)\<rparr>)"
  by (auto simp: rank2_def list_all_iff split: tval.splits)

lemma joined_rows_pair:
  "rows_of x = Some X \<Longrightarrow> rows_of s = Some S \<Longrightarrow> joined_rows [x, s] = map2 (@) X S"
  by (simp add: joined_rows_def)

lemma joined_rows_single: "rows_of x = Some X \<Longrightarrow> joined_rows [x] = X"
  by (simp add: joined_rows_def)

lemma scope_or_Some [simp]: "s \<noteq> [] \<Longrightarrow> scope_or (Some s) d = s"
  by (simp add: scope_or_def)

lemma cell_step:
  assumes act: "\<And>t. act t = t\<lparr>tval := map_tval f (tval t)\<rparr>"
      and vi: "rank2 B n_i inputs" and vs: "rank2 B n_s state"
      and pos: "0 < n_i" "0 < n_s"
      and Xr: "tval inputs = Mat X" and Sr: "tval state = Mat S"
      and nr: "\<not> reuse st"
      and ftm: "vars st (cell_var st sc ''Linear/Transition'' ''Matrix'') = None"
      and ftb: "vars st (cell_var st sc ''Linear/Transition'' ''Bias'') = None"
      and fom: "vars st (cell_var st sc ''Linear/Output'' ''Matrix'') = None"
      and fob: "vars st (cell_var st sc ''Linear/Output'' ''Bias'') = None"
      and init1: "fixed_initializer [n_i, n_s] n_s ident (generator st) = (Inr M1, g1)"
  shows "\<exists>A1 M2 g2 A2 lin st1 out st2.
           M1 = \<lparr>get_shape = [Some (n_i + n_s), Some n_s], tval = Mat A1\<rparr>
         \<and> fixed_initializer [n_s] n_o (- 1) g1 = (Inr M2, g2) \<and> tval M2 = Mat A2
         \<and> linear_map (TensorList [inputs, state]) n_s True 0 (Some ''Linear/Transition'') ident
              (st\<lparr>scope_name := scoped (scope_name st) sc\<rparr>) = (Inr lin, st1)
         \<and> tval lin = Mat (times_rows (map2 (@) X S) A1 n_s)
         \<and> rank2 B n_s (act lin)
         \<and> linear_map (Tensor (act lin)) n_o True 0 (Some ''Linear/Output'') (- 1) st1
              = (Inr out, st2)
         \<and> tval out = Mat (times_rows (map (map f) (times_rows (map2 (@) X S) A1 n_s)) A2 n_o)
         \<and> rank2 B n_o out
         \<and> vars st2 (cell_var st sc ''Linear/Transition'' ''Matrix'') = Some M1
         \<and> vars st2 (cell_var st sc ''Linear/Output'' ''Matrix'') = Some M2"
proof -
  define st0 where "st0 = st\<lparr>scope_name := scoped (scope_name st) sc\<rparr>"
  from fixed_initializer_result[OF init1]
  obtain A1 where M1: "M1 = \<lparr>get_shape = [Some (sum_list [n_i, n_s]), Some n_s], tval = Mat A1\<rparr>"
    and lenA1: "length A1 = sum_list [n_i, n_s]" by blast
  have rX: "rows_of inputs = Some X" and rS: "rows_of state = Some S"
    using rank2_rows[OF vi] rank2_rows[OF vs] Xr Sr by auto
  \<comment> \<open>the transition map\<close>
  have a1: "as_list (TensorList [inputs, state]) \<noteq> []" by simp
  have l1: "length [n_i, n_s] = length (as_list (TensorList [inputs, state]))" by simp
  have v1: "\<forall>i<length (as_list (TensorList [inputs, state])).
              rank2 B ([n_i, n_s] ! i) (as_list (TensorList [inputs, state]) ! i) \<and> 0 < [n_i, n_s] ! i"
    using vi vs pos by (auto simp: less_Suc_eq)
  have nr0: "\<not> reuse st0" using nr by (simp add: st0_def)
  have fm0: "vars st0 (scoped (scoped (scope_name st0) (scope_or (Some ''Linear/Transition'') ''Linear''))
               ''Matrix'') = None"
    using ftm by (simp add: st0_def cell_var_def)
  have fb0: "True \<longrightarrow> vars st0 (scoped (scoped (scope_name st0)
               (scope_or (Some ''Linear/Transition'') ''Linear'')) ''Bias'') = None"
    using ftb by (simp add: st0_def cell_var_def)
  have i0: "fixed_initializer [n_i, n_s] n_s ident (generator st0) = (Inr M1, g1)"
    using init1 by (simp add: st0_def)
  define st1 where "st1 = st0\<lparr>generator := g1,
      vars := (vars st0)(cell_var st sc ''Linear/Transition'' ''Matrix'' \<mapsto> M1,
                         cell_var st sc ''Linear/Transition'' ''Bias'' \<mapsto> constant_initializer 0 n_s)\<rparr>"
  from linear_fresh[OF a1 l1 v1 nr0 fm0 fb0 i0 M1 lenA1, of 0]
  obtain P1 where rP1: "rank2 B n_s P1"
    and vP1: "tval P1 = Mat (times_rows (joined_rows [inputs, state]) A1 n_s)"
    and lin1: "linear_map (TensorList [inputs, state]) n_s True 0 (Some ''Linear/Transition'') ident st0
                = (Inr (P1\<lparr>tval := Mat (map (map (\<lambda>x. x + 0))
                                       (times_rows (joined_rows [inputs, state]) A1 n_s))\<rparr>), st1)"
    by (auto simp: st1_def st0_def cell_var_def)
  define lin where "lin = P1\<lparr>tval := Mat (times_rows (map2 (@) X S) A1 n_s)\<rparr>"
  have lin_eq: "P1\<lparr>tval := Mat (map (map (\<lambda>x. x + 0))
                    (times_rows (joined_rows [inputs, state]) A1 n_s))\<rparr> = lin"
    by (simp add: lin_def joined_rows_pair[OF rX rS])
  have vlin: "tval lin = Mat (times_rows (map2 (@) X S) A1 n_s)" by (simp add: lin_def)
  have rlin: "rank2 B n_s lin"
    using rP1 vP1 by (simp add: lin_def rank2_def joined_rows_pair[OF rX rS])
  define ns where "ns = act lin"
  have rns: "rank2 B n_s ns" unfolding ns_def act by (rule rank2_map_tval[OF rlin])
  have vns: "tval ns = Mat (map (map f) (times_rows (map2 (@) X S) A1 n_s))"
    by (simp add: ns_def act vlin)
  have rowsns: "rows_of ns = Some (map (map f) (times_rows (map2 (@) X S) A1 n_s))"
    using rank2_rows[OF rns] vns by auto
  \<comment> \<open>the out map\<close>
  have "\<forall>k<length [n_s]. (int k = - 1 \<longrightarrow> [n_s] ! k = n_o \<or> [n_s] ! k = 1)
                        \<and> (int k \<noteq> - 1 \<longrightarrow> 0 < [n_s] ! k + n_o)"
    using pos by simp
  from fixed_initializer_succeeds[OF this, of g1]
  obtain M2 g2 where init2: "fixed_initializer [n_s] n_o (- 1) g1 = (Inr M2, g2)" by blast
  from fixed_initializer_result[OF init2]
  obtain A2 where M2: "M2 = \<lparr>get_shape = [Some (sum_list [n_s]), Some n_o], tval = Mat A2\<rparr>"
    and lenA2: "length A2 = sum_list [n_s]" by blast
  have a2: "as_list (Tensor ns) \<noteq> []" by simp
  have l2: "length [n_s] = length (as_list (Tensor ns))" by simp
  have v2: "\<forall>i<length (as_list (Tensor ns)). rank2 B ([n_s] ! i) (as_list (Tensor ns) ! i) \<and> 0 < [n_s] ! i"
    using rns pos by simp
  have nr1: "\<not> reuse st1" using nr by (simp add: st1_def st0_def)
  have fm1: "vars st1 (scoped (scoped (scope_name st1) (scope_or (Some ''Linear/Output'') ''Linear''))
               ''Matrix'') = None"
    using fom cell_var_distinct(1,2)[of st sc]
    by (simp add: st1_def st0_def cell_var_def[symmetric])
  have fb1: "True \<longrightarrow> vars st1 (scoped (scoped (scope_name st1)
               (scope_or (Some ''Linear/Output'') ''Linear'')) ''Bias'') = None"
    using fob cell_var_distinct(3,4)[of st sc]
    by (simp add: st1_def st0_def cell_var_def[symmetric])
  have i1: "fixed_initializer [n_s] n_o (- 1) (generator st1) = (Inr M2, g2)"
    using init2 by (simp add: st1_def)
  define st2 where "st2 = st1\<lparr>generator := g2,
      vars := (vars st1)(cell_var st sc ''Linear/Output'' ''Matrix'' \<mapsto> M2,
                         cell_var st sc ''Linear/Output'' ''Bias'' \<mapsto> constant_initializer 0 n_o)\<rparr>"
  from linear_fresh[OF a2 l2 v2 nr1 fm1 fb1 i1 M2 lenA2, of 0]
  obtain P2 where rP2: "rank2 B n_o P2"
    and vP2: "tval P2 = Mat (times_rows (joined_rows [ns]) A2 n_o)"
    and lin2: "linear_map (Tensor ns) n_o True 0 (Some ''Linear/Output'') (- 1) st1
                = (Inr (P2\<lparr>tval := Mat (map (map (\<lambda>x. x + 0))
                                       (times_rows (joined_rows [ns]) A2 n_o))\<rparr>), st2)"
    by (auto simp: st2_def st1_def st0_def cell_var_def)
  define out where "out = P2\<lparr>tval := Mat (map (map (\<lambda>x. x + 0))
                                       (times_rows (joined_rows [ns]) A2 n_o))\<rparr>"
  have vout: "tval out
                = Mat (times_rows (map (map f) (times_rows (map2 (@) X S) A1 n_s)) A2 n_o)"
    by (simp add: out_def joined_rows_single[OF rowsns])
  have rout: "rank2 B n_o out"
    using rP2 vP2 by (simp add: out_def rank2_def)
  have tm: "vars st2 (cell_var st sc ''Linear/Transition'' ''Matrix'') = Some M1"
    using cell_var_distinct(1,3)[of st sc] bias_name_neq_matrix_name[THEN not_sym]
    by (auto simp: st2_def st1_def cell_var_def)
  have om: "vars st2 (cell_var st sc ''Linear/Output'' ''Matrix'') = Some M2"
    using bias_name_neq_matrix_name[THEN not_sym] by (auto simp: st2_def cell_var_def)
  from M1 init2 M2 lin1[unfolded lin_eq, folded st0_def] vlin rns[unfolded ns_def]
       lin2[folded out_def, unfolded ns_def] vout rout tm om
  show ?thesis unfolding st0_def by (intro exI[of _ A1] exI[of _ M2] exI[of _ g2] exI[of _ A2]
      exI[of _ lin] exI[of _ st1] exI[of _ out] exI[of _ st2]) simp
qed

section \<open>Properties of the cells and of the sequence helper\<close>

text \<open>
  C4. Let \<open>inputs\<close> and \<open>state\<close> be tensors of rank two with the same number of rows,
  \<open>state\<close> with \<^verbatim>\<open>self._state_size\<close> columns, and let the four variables of the cell not
  exist yet. Then the step of an \<^verbatim>\<open>IRNNCell\<close> returns: the new state is \<^verbatim>\<open>relu\<close> of
  \<^verbatim>\<open>linear([inputs, state], state_size, bias=True, identity=1)\<close>; the transition matrix it
  creates has the identity matrix as the block of rows that multiplies the state; and
  when the inputs are zero the new state is \<^verbatim>\<open>relu(state)\<close>.
\<close>

theorem IRNNCell_step:
  assumes "rank2 B n_i inputs" and "rank2 B (self_state_size self) state"
      and "0 < n_i" and "0 < self_state_size self"
      and "\<not> reuse st"
      and "vars st (cell_var st sc ''Linear/Transition'' ''Matrix'') = None"
      and "vars st (cell_var st sc ''Linear/Transition'' ''Bias'') = None"
      and "vars st (cell_var st sc ''Linear/Output'' ''Matrix'') = None"
      and "vars st (cell_var st sc ''Linear/Output'' ''Bias'') = None"
  shows "\<exists>lin st1 out st2 A.
           linear_map (TensorList [inputs, state]) (self_state_size self) True 0
               (Some ''Linear/Transition'') 1 (st\<lparr>scope_name := scoped (scope_name st) sc\<rparr>)
             = (Inr lin, st1)
         \<and> linear_map (Tensor (relu lin)) (self_output_size self) True 0
               (Some ''Linear/Output'') (- 1) st1
             = (Inr out, st2)
         \<and> IRNNCell_call self inputs state sc st
             = (Inr (out, relu lin), st2\<lparr>scope_name := scope_name st, reuse := reuse st\<rparr>)
         \<and> vars st2 (cell_var st sc ''Linear/Transition'' ''Matrix'')
             = Some \<lparr>get_shape = [Some (n_i + self_state_size self), Some (self_state_size self)],
                     tval = Mat A\<rparr>
         \<and> take (self_state_size self) (drop n_i A) = nd_rows (np_identity (self_state_size self))
         \<and> (tval inputs = Mat (replicate B (replicate n_i 0))
            \<longrightarrow> tval (relu lin) = map_tval (\<lambda>x. max x 0) (tval state))"
proof -
  define n_s where "n_s = self_state_size self"
  note a = assms[folded n_s_def]
  from rank2_rows[OF a(1)] obtain X where X: "tval inputs = Mat X" "length X = B" by blast
  from rank2_rows[OF a(2)] obtain S where S: "tval state = Mat S" "length S = B"
    "\<forall>r \<in> set S. length r = n_s" by blast
  have "\<forall>k<length [n_i, n_s].
          (int k = 1 \<longrightarrow> [n_i, n_s] ! k = n_s \<or> [n_i, n_s] ! k = 1)
          \<and> (int k \<noteq> 1 \<longrightarrow> 0 < [n_i, n_s] ! k + n_s)"
    using a(4) by (auto simp: less_Suc_eq)
  from fixed_initializer_succeeds[OF this, of "generator st"]
  obtain M1 g1 where init1: "fixed_initializer [n_i, n_s] n_s 1 (generator st) = (Inr M1, g1)"
    by blast
  from fixed_initializer_result[OF init1]
  obtain A where M1: "M1 = \<lparr>get_shape = [Some (sum_list [n_i, n_s]), Some n_s], tval = Mat A\<rparr>"
    and lenA: "length A = sum_list [n_i, n_s]"
    and blocks: "\<forall>k<length [n_i, n_s]. cast_block_ok 1 n_s (unit_samples (generator st)) (k, [n_i, n_s] ! k)
                   (take ([n_i, n_s] ! k) (drop (sum_list (take k [n_i, n_s])) A))"
    by blast
  from blocks[rule_format, of 1]
  have idb: "take n_s (drop n_i A) = nd_rows (np_identity n_s)"
    by (simp add: cast_block_ok_def identity_block_square)
  from cell_step[of relu "\<lambda>x. max x 0", OF _ a(1-4) X(1) S(1) a(5-9) init1,
                 of "self_output_size self"]
  obtain A1 A2 lin st1 out st2 where
    M1': "M1 = \<lparr>get_shape = [Some (n_i + n_s), Some n_s], tval = Mat A1\<rparr>"
    and l1: "linear_map (TensorList [inputs, state]) n_s True 0
           (Some ''Linear/Transition'') 1 (st\<lparr>scope_name := scoped (scope_name st) sc\<rparr>)
         = (Inr lin, st1)"
    and vlin: "tval lin = Mat (times_rows (map2 (@) X S) A1 n_s)"
    and l2: "linear_map (Tensor (relu lin)) (self_output_size self) True 0
               (Some ''Linear/Output'') (- 1) st1 = (Inr out, st2)"
    and tm: "vars st2 (cell_var st sc ''Linear/Transition'' ''Matrix'') = Some M1"
    by (auto simp: relu_def)
  from M1 M1' have A1: "A1 = A" by simp
  have c: "IRNNCell_call self inputs state sc st
             = (Inr (out, relu lin), st2\<lparr>scope_name := scope_name st, reuse := reuse st\<rparr>)"
    by (simp add: IRNNCell_call_def variable_scope_def l1[unfolded n_s_def] l2)
  have z: "tval (relu lin) = map_tval (\<lambda>x. max x 0) (tval state)"
    if zi: "tval inputs = Mat (replicate B (replicate n_i 0))"
  proof -
    from zi X have XS: "X = replicate B (replicate n_i 0)" by simp
    have split: "A = take n_i A @ nd_rows (np_identity n_s)"
    proof -
      have "drop n_i A = take n_s (drop n_i A)" using lenA by simp
      with idb have "drop n_i A = nd_rows (np_identity n_s)" by simp
      then show ?thesis using append_take_drop_id[of n_i A] by simp
    qed
    have lt: "length (take n_i A) = n_i" using lenA by simp
    have "times_rows (map2 (@) X S) (take n_i A @ nd_rows (np_identity n_s)) n_s = S"
      by (rule times_rows_identity_block) (use S lt in \<open>auto simp: XS\<close>)
    with split have "times_rows (map2 (@) X S) A n_s = S" by simp
    with vlin A1 show ?thesis by (simp add: relu_def S(1))
  qed
  from l1 l2 c tm M1' A1 idb z show ?thesis unfolding n_s_def by blast
qed

theorem IRNNCell_step_witness:
  "\<exists>lin st1 out st2 A.
      linear_map (TensorList [\<lparr>get_shape = [Some 1, Some 1], tval = Mat [[0]]\<rparr>,
                              \<lparr>get_shape = [None, Some 2], tval = Mat [[3, - 4]]\<rparr>]) 2 True 0
          (Some ''Linear/Transition'') 1
          \<lparr>generator = (\<lambda>k. 3 / 4), scope_name = ''IRNN'', reuse = False, vars = Map.empty\<rparr>
        = (Inr lin, st1)
    \<and> linear_map (Tensor (relu lin)) 1 True 0 (Some ''Linear/Output'') (- 1) st1 = (Inr out, st2)
    \<and> IRNNCell_call
          \<lparr>cell_class = IRNNCell, self_input_size = 1, self_state_size = 2, self_output_size = 1\<rparr>
          \<lparr>get_shape = [Some 1, Some 1], tval = Mat [[0]]\<rparr>
          \<lparr>get_shape = [None, Some 2], tval = Mat [[3, - 4]]\<rparr> ''IRNN''
          \<lparr>generator = (\<lambda>k. 3 / 4), scope_name = [], reuse = False, vars = Map.empty\<rparr>
        = (Inr (out, relu lin), st2\<lparr>scope_name := [], reuse := False\<rparr>)
    \<and> vars st2 ''IRNN/Linear/Transition/Matrix''
        = Some \<lparr>get_shape = [Some 3, Some 2], tval = Mat A\<rparr>
    \<and> take 2 (drop 1 A) = [[1, 0], [0, 1]]
    \<and> tval (relu lin) = Mat [[3, 0]]"
  using IRNNCell_step
    [of 1 1 "\<lparr>get_shape = [Some 1, Some 1], tval = Mat [[0]]\<rparr>"
        "\<lparr>cell_class = IRNNCell, self_input_size = 1, self_state_size = 2, self_output_size = 1\<rparr>"
        "\<lparr>get_shape = [None, Some 2], tval = Mat [[3, - 4]]\<rparr>"
        "\<lparr>generator = (\<lambda>k. 3 / 4), scope_name = [], reuse = False, vars = Map.empty\<rparr>"
        "''IRNN''"]
  by (simp add: rank2_def scoped_def cell_var_def np_identity_def upt_rec eval_nat_numeral)

text \<open>
  C5. Under the same conditions the step of a \<^verbatim>\<open>tanhRNNCell\<close> returns: the new state is
  \<^verbatim>\<open>tanh\<close> of \<^verbatim>\<open>linear([inputs, state], state_size, bias=True)\<close> and the output is
  \<^verbatim>\<open>linear(new_state, output_size, bias=True)\<close>, both with \<open>identity = -1\<close>; and when
  the inputs and the state are zero, the new state and the output are zero.
\<close>

theorem tanhRNNCell_step:
  assumes "rank2 B n_i inputs" and "rank2 B (self_state_size self) state"
      and "0 < n_i" and "0 < self_state_size self"
      and "\<not> reuse st"
      and "vars st (cell_var st sc ''Linear/Transition'' ''Matrix'') = None"
      and "vars st (cell_var st sc ''Linear/Transition'' ''Bias'') = None"
      and "vars st (cell_var st sc ''Linear/Output'' ''Matrix'') = None"
      and "vars st (cell_var st sc ''Linear/Output'' ''Bias'') = None"
  shows "\<exists>lin st1 out st2.
           linear_map (TensorList [inputs, state]) (self_state_size self) True 0
               (Some ''Linear/Transition'') (- 1) (st\<lparr>scope_name := scoped (scope_name st) sc\<rparr>)
             = (Inr lin, st1)
         \<and> linear_map (Tensor (tf_tanh lin)) (self_output_size self) True 0
               (Some ''Linear/Output'') (- 1) st1
             = (Inr out, st2)
         \<and> tanhRNNCell_call self inputs state sc st
             = (Inr (out, tf_tanh lin), st2\<lparr>scope_name := scope_name st, reuse := reuse st\<rparr>)
         \<and> (tval inputs = Mat (replicate B (replicate n_i 0))
              \<and> tval state = Mat (replicate B (replicate (self_state_size self) 0))
            \<longrightarrow> tval (tf_tanh lin) = Mat (replicate B (replicate (self_state_size self) 0))
              \<and> tval out = Mat (replicate B (replicate (self_output_size self) 0)))"
proof -
  from rank2_rows[OF assms(1)] obtain X where X: "tval inputs = Mat X" "length X = B" by blast
  from rank2_rows[OF assms(2)] obtain S where S: "tval state = Mat S" "length S = B" by blast
  have "\<forall>k<length [n_i, self_state_size self].
          (int k = - 1 \<longrightarrow> [n_i, self_state_size self] ! k = self_state_size self
                          \<or> [n_i, self_state_size self] ! k = 1)
          \<and> (int k \<noteq> - 1 \<longrightarrow> 0 < [n_i, self_state_size self] ! k + self_state_size self)"
    using assms(4) by simp
  from fixed_initializer_succeeds[OF this, of "generator st"]
  obtain M1 g1 where init1:
    "fixed_initializer [n_i, self_state_size self] (self_state_size self) (- 1) (generator st)
       = (Inr M1, g1)" by blast
  from cell_step[of tf_tanh tanh, OF _ assms(1-4) X(1) S(1) assms(5-9) init1,
                 of "self_output_size self"]
  obtain A1 A2 lin st1 out st2 where
    l1: "linear_map (TensorList [inputs, state]) (self_state_size self) True 0
           (Some ''Linear/Transition'') (- 1) (st\<lparr>scope_name := scoped (scope_name st) sc\<rparr>)
         = (Inr lin, st1)"
    and vlin: "tval lin = Mat (times_rows (map2 (@) X S) A1 (self_state_size self))"
    and l2: "linear_map (Tensor (tf_tanh lin)) (self_output_size self) True 0
               (Some ''Linear/Output'') (- 1) st1 = (Inr out, st2)"
    and vout: "tval out = Mat (times_rows (map (map tanh)
                  (times_rows (map2 (@) X S) A1 (self_state_size self))) A2 (self_output_size self))"
    by (auto simp: tf_tanh_def)
  have c: "tanhRNNCell_call self inputs state sc st
             = (Inr (out, tf_tanh lin), st2\<lparr>scope_name := scope_name st, reuse := reuse st\<rparr>)"
    by (simp add: tanhRNNCell_call_def variable_scope_def l1 l2)
  have z: "tval (tf_tanh lin) = Mat (replicate B (replicate (self_state_size self) 0))
              \<and> tval out = Mat (replicate B (replicate (self_output_size self) 0))"
    if zi: "tval inputs = Mat (replicate B (replicate n_i 0))"
      and zs: "tval state = Mat (replicate B (replicate (self_state_size self) 0))"
  proof -
    from zi zs X S have XS: "X = replicate B (replicate n_i 0)"
      "S = replicate B (replicate (self_state_size self) 0)" by simp_all
    have "\<forall>row \<in> set (map2 (@) X S). \<forall>x \<in> set row. x = 0" by (auto simp: XS)
    from times_rows_zero[OF this]
    have t1: "times_rows (map2 (@) X S) A1 (self_state_size self)
                = replicate B (replicate (self_state_size self) 0)"
      by (simp add: XS)
    have t2: "map (map tanh) (replicate B (replicate (self_state_size self) (0::real)))
                = replicate B (replicate (self_state_size self) 0)" by simp
    have "\<forall>row \<in> set (replicate B (replicate (self_state_size self) (0::real))). \<forall>x \<in> set row. x = 0"
      by auto
    from times_rows_zero[OF this]
    have t3: "times_rows (replicate B (replicate (self_state_size self) 0)) A2 (self_output_size self)
                = replicate B (replicate (self_output_size self) 0)"
      by simp
    show ?thesis using vlin vout by (simp add: tf_tanh_def t1 t3)
  qed
  from l1 l2 c z show ?thesis by blast
qed

theorem tanhRNNCell_step_witness:
  "\<exists>lin st1 out st2.
      linear_map (TensorList [\<lparr>get_shape = [Some 1, Some 2], tval = Mat [[0, 0]]\<rparr>,
                              \<lparr>get_shape = [None, Some 2], tval = Mat [[0, 0]]\<rparr>]) 2 True 0
          (Some ''Linear/Transition'') (- 1)
          \<lparr>generator = (\<lambda>k. 3 / 4), scope_name = ''tanhRNN'', reuse = False, vars = Map.empty\<rparr>
        = (Inr lin, st1)
    \<and> linear_map (Tensor (tf_tanh lin)) 1 True 0 (Some ''Linear/Output'') (- 1) st1 = (Inr out, st2)
    \<and> tanhRNNCell_call
          \<lparr>cell_class = tanhRNNCell, self_input_size = 2, self_state_size = 2, self_output_size = 1\<rparr>
          \<lparr>get_shape = [Some 1, Some 2], tval = Mat [[0, 0]]\<rparr>
          \<lparr>get_shape = [None, Some 2], tval = Mat [[0, 0]]\<rparr> ''tanhRNN''
          \<lparr>generator = (\<lambda>k. 3 / 4), scope_name = [], reuse = False, vars = Map.empty\<rparr>
        = (Inr (out, tf_tanh lin), st2\<lparr>scope_name := [], reuse := False\<rparr>)
    \<and> tval (tf_tanh lin) = Mat [[0, 0]] \<and> tval out = Mat [[0]]"
  using tanhRNNCell_step
    [of 1 2 "\<lparr>get_shape = [Some 1, Some 2], tval = Mat [[0, 0]]\<rparr>"
        "\<lparr>cell_class = tanhRNNCell, self_input_size = 2, self_state_size = 2, self_output_size = 1\<rparr>"
        "\<lparr>get_shape = [None, Some 2], tval = Mat [[0, 0]]\<rparr>"
        "\<lparr>generator = (\<lambda>k. 3 / 4), scope_name = [], reuse = False, vars = Map.empty\<rparr>"
        "''tanhRNN''"]
  by (simp add: rank2_def scoped_def eval_nat_numeral)

text \<open>
  C8. The step of an \<^verbatim>\<open>LSTMCell\<close>, a \<^verbatim>\<open>complex_RNNCell\<close> or a \<^verbatim>\<open>uRNN\<close> raises
  \<open>NotImplementedError\<close> for all inputs, states and scopes, and changes nothing.
\<close>

theorem stub_cells_not_implemented:
  "call (self\<lparr>cell_class := LSTMCell\<rparr>) inputs state scope st
     = (Inl (NotImplementedError None), st)
   \<and> call (self\<lparr>cell_class := complex_RNNCell\<rparr>) inputs state scope st
     = (Inl (NotImplementedError None), st)
   \<and> call (self\<lparr>cell_class := uRNN\<rparr>) inputs state scope st
     = (Inl (NotImplementedError None), st)"
  by (simp add: call_def LSTMCell_call_def complex_RNNCell_call_def uRNN_call_def)

text \<open>
  C9, as the code has it. For every cell type other than \<^verbatim>\<open>tanhRNN\<close> and \<^verbatim>\<open>IRNN\<close>,
  \<^verbatim>\<open>RNN\<close> raises a \<open>NotImplementedError\<close> that has no arguments, so no text at all; no
  cell is built and nothing changes.
\<close>

theorem RNN_unknown_cell_type:
  "cell_type \<noteq> ''tanhRNN'' \<Longrightarrow> cell_type \<noteq> ''IRNN'' \<Longrightarrow>
   RNN cell_type x isz ssz osz n st = (Inl (NotImplementedError None), st)
   \<and> error_text (NotImplementedError None) = []"
  by (simp add: RNN_def)

theorem RNN_unknown_cell_type_witness:
  "RNN ''LSTM'' \<lparr>get_shape = [Some 1, Some 1, Some 1], tval = Cube [[[0]]]\<rparr> 1 1 1 1
     \<lparr>generator = (\<lambda>k. 1 / 2), scope_name = [], reuse = False, vars = Map.empty\<rparr>
   = (Inl (NotImplementedError None),
      \<lparr>generator = (\<lambda>k. 1 / 2), scope_name = [], reuse = False, vars = Map.empty\<rparr>)"
  using RNN_unknown_cell_type
    [of "''LSTM''" "\<lparr>get_shape = [Some 1, Some 1, Some 1], tval = Cube [[[0]]]\<rparr>" 1 1 1 1
        "\<lparr>generator = (\<lambda>k. 1 / 2), scope_name = [], reuse = False, vars = Map.empty\<rparr>"]
  by simp

text \<open>
  C9 as the specification states it fails: the error of \<^verbatim>\<open>RNN ''LSTM''\<close> does not show the
  identifier, since its text is empty.
\<close>

theorem RNN_error_names_identifier_counterexample:
  "fst (RNN ''LSTM'' \<lparr>get_shape = [Some 1, Some 1, Some 1], tval = Cube [[[0]]]\<rparr> 1 1 1 1
          \<lparr>generator = (\<lambda>k. 1 / 2), scope_name = [], reuse = False, vars = Map.empty\<rparr>)
     = Inl (NotImplementedError None)
   \<and> \<not> sublist ''LSTM'' (error_text (NotImplementedError None))"
  by (simp add: RNN_def)

end
